theory Spec2Isabelle
  imports Complex_Main "HOL-Library.Sublist"
begin

section \<open>Data model of the indexer (src/db\_filling.py)\<close>

text \<open>
  The two tables the statements of the source read and write:
  \<^verbatim>\<open>source_documents(id, file_path, file_hash, last_indexed_at)\<close> and
  \<^verbatim>\<open>document_chunks(id, source_id, chunk_text, embedding, metadata)\<close>.
  The metadata dictionary built in \<^verbatim>\<open>process_markdown_file\<close> has the four keys
  \<^verbatim>\<open>file_name, chunk_index, headers, file_path\<close>; \<^verbatim>\<open>json.dumps\<close> at the insert
  and \<^verbatim>\<open>json.loads\<close> at the search are inverse on it, so the row keeps the record.
\<close>

record metadata =
  md_file_name :: string
  md_chunk_index :: nat
  md_headers :: "(string \<times> string) list"
  md_file_path :: string

record source_document =
  sd_id :: nat
  sd_file_path :: string
  sd_file_hash :: string
  sd_last_indexed_at :: "nat option"

record document_chunk =
  dc_id :: nat
  dc_source_id :: nat
  dc_chunk_text :: string
  dc_embedding :: "real list"
  dc_metadata :: metadata

text \<open>
  A segment is one \<^verbatim>\<open>Document\<close> of the markdown splitter (\<^verbatim>\<open>page_content\<close> and the
  header dictionary); a processed chunk is the dictionary
  \<^verbatim>\<open>{"text": ..., "metadata": ...}\<close> appended to \<^verbatim>\<open>processed_chunks\<close>.
\<close>

record segment =
  page_content :: string
  seg_metadata :: "(string \<times> string) list"

record pchunk =
  pc_text :: string
  pc_metadata :: metadata

text \<open>
  A markdown file as \<^verbatim>\<open>rglob\<close> finds it: its name, its path relative to the vault
  directory, and its bytes (\<open>None\<close> when the file cannot be opened).
\<close>

record md_file =
  f_name :: string
  f_rel :: string
  f_bytes :: "string option"

text \<open>
  The library functions the indexer calls and does not define: the SHA-256 digest, the
  UTF-8 decoder behind \<^verbatim>\<open>open(..., encoding='utf-8')\<close> (\<open>None\<close> is
  \<^verbatim>\<open>UnicodeDecodeError\<close>) and \<^verbatim>\<open>MarkdownHeaderTextSplitter.split_text\<close>.
\<close>

record libs =
  sha256 :: "string \<Rightarrow> string"
  utf8_decode :: "string \<Rightarrow> string option"
  split_text :: "string \<Rightarrow> segment list"

datatype exn =
    OSError
  | UnicodeDecodeError
  | ClientError
  | EmbeddingError string
  | PostgresError
  | DataError

text \<open>
  A float64 value, as Python and numpy hold it: a finite number, an infinity or NaN.
  The sign of a zero is not kept.
\<close>

datatype npfloat = Finite real | PosInf | NegInf | NaN

text \<open>
  A reply of the embedding service to one POST, after \<^verbatim>\<open>response.json()\<close>: status 200
  with the list of floats under \<^verbatim>\<open>"embedding"\<close>, or another status with its error text.
\<close>

datatype reply = Embedding "npfloat list" | HttpError string

text \<open>The write statements sent over the connection, in the order they were sent.\<close>

datatype stmt =
    UpdateDocument string string
  | DeleteChunks nat
  | InsertDocument string string
  | InsertChunk nat string "npfloat list" metadata

text \<open>
  The world the indexer runs in: the two tables with their id sequences, the clock
  behind \<^verbatim>\<open>CURRENT_TIMESTAMP\<close>, the write statements sent so far, and the behaviour of
  the two services. \<open>faults\<close> says for each coming round trip to the database
  whether it fails (an empty list: none does); \<open>replies\<close> gives for each coming
  request to the embedding service its reply as a function of the prompt (an empty
  list: the service cannot be reached).
\<close>

record world =
  docs :: "source_document list"
  chunks :: "document_chunk list"
  doc_seq :: nat
  chunk_seq :: nat
  now :: nat
  sent :: "stmt list"
  faults :: "bool list"
  replies :: "(string \<Rightarrow> reply) list"

type_synonym 'a io = "world \<Rightarrow> (exn + 'a) \<times> world"

definition io_return :: "'a \<Rightarrow> 'a io" where
  "io_return x w = (Inr x, w)"

definition io_lift :: "exn + 'a \<Rightarrow> 'a io" where
  "io_lift r w = (r, w)"

definition io_bind :: "'a io \<Rightarrow> ('a \<Rightarrow> 'b io) \<Rightarrow> 'b io" where
  "io_bind m k w = (case m w of (Inl e, w') \<Rightarrow> (Inl e, w') | (Inr x, w') \<Rightarrow> k x w')"

text \<open>\<^verbatim>\<open>try: ... except Exception as e: print(...)\<close>: whatever the body raises is
  printed and dropped.\<close>

definition io_catch :: "unit io \<Rightarrow> unit io" where
  "io_catch m w = (case m w of (Inl e, w') \<Rightarrow> (Inr (), w') | (Inr x, w') \<Rightarrow> (Inr (), w'))"

section \<open>Text helpers\<close>

text \<open>\<^verbatim>\<open>str.strip()\<close>: the characters \<^verbatim>\<open>str.isspace\<close> accepts below code point 256.\<close>

definition isspace :: "char \<Rightarrow> bool" where
  "isspace c = (of_char c \<in> {9, 10, 11, 12, 13, 28, 29, 30, 31, 32, 133, 160 :: nat})"

definition strip :: "string \<Rightarrow> string" where
  "strip s = rev (dropWhile isspace (rev (dropWhile isspace s)))"

section \<open>Hashing and chunking\<close>

definition calculate_file_hash :: "libs \<Rightarrow> md_file \<Rightarrow> exn + string" where
  "calculate_file_hash L f =
     (case f_bytes f of None \<Rightarrow> Inl OSError | Some b \<Rightarrow> Inr (sha256 L b))"

definition read_text :: "libs \<Rightarrow> md_file \<Rightarrow> exn + string" where
  "read_text L f =
     (case f_bytes f of
        None \<Rightarrow> Inl OSError
      | Some b \<Rightarrow> (case utf8_decode L b of None \<Rightarrow> Inl UnicodeDecodeError | Some s \<Rightarrow> Inr s))"

text \<open>The loop \<^verbatim>\<open>for i, chunk in enumerate(chunks)\<close> of \<^verbatim>\<open>process_markdown_file\<close>.\<close>

fun collect_chunks :: "md_file \<Rightarrow> (nat \<times> segment) list \<Rightarrow> pchunk list" where
  "collect_chunks f [] = []"
| "collect_chunks f ((i, chunk) # rest) =
     (let chunk_text = strip (page_content chunk) in
      if chunk_text = [] then collect_chunks f rest
      else \<lparr>pc_text = chunk_text,
            pc_metadata = \<lparr>md_file_name = f_name f, md_chunk_index = i,
                            md_headers = seg_metadata chunk, md_file_path = f_rel f\<rparr>\<rparr>
           # collect_chunks f rest)"

definition process_markdown_file :: "libs \<Rightarrow> md_file \<Rightarrow> exn + pchunk list" where
  "process_markdown_file L f =
     (case read_text L f of
        Inl UnicodeDecodeError \<Rightarrow> Inr []
      | Inl e \<Rightarrow> Inl e
      | Inr content \<Rightarrow>
          if strip content = [] then Inr []
          else Inr (collect_chunks f (enumerate 0 (split_text L content))))"

section \<open>The embedding service and the normalisation\<close>

definition get_embedding :: "string \<Rightarrow> npfloat list io" where
  "get_embedding text w =
     (case replies w of
        [] \<Rightarrow> (Inl ClientError, w)
      | r # rs \<Rightarrow>
          (case r text of
             Embedding v \<Rightarrow> (Inr v, w\<lparr>replies := rs\<rparr>)
           | HttpError error_text \<Rightarrow> (Inl (EmbeddingError error_text), w\<lparr>replies := rs\<rparr>)))"

text \<open>Rounding to an integer, ties to the even one.\<close>

definition round_half_even :: "real \<Rightarrow> int" where
  "round_half_even y =
     (let n = \<lfloor>y\<rfloor>; r = y - of_int n in
      if r < 1 / 2 then n else if 1 / 2 < r then n + 1 else if even n then n else n + 1)"

definition pow2 :: "int \<Rightarrow> real" where
  "pow2 e = (if 0 \<le> e then 2 ^ nat e else 1 / 2 ^ nat (- e))"

text \<open>
  The float64 nearest to a real number (IEEE 754 binary64, round to nearest, ties to
  even): 53 significant bits, the smallest step \<open>pow2 (- 1074)\<close>, and an infinity
  once the rounded value reaches \<open>2 ^ 1024\<close>. This is also what \<^verbatim>\<open>float("1e200")\<close>
  gives for the decimal it reads.
\<close>

definition f64_round :: "real \<Rightarrow> npfloat" where
  "f64_round x =
     (if x = 0 then Finite 0
      else
        let e = max (\<lfloor>log 2 \<bar>x\<bar>\<rfloor> - 52) (- 1074);
            y = of_int (round_half_even (x / pow2 e)) * pow2 e
        in if 2 ^ 1024 \<le> \<bar>y\<bar> then (if 0 < x then PosInf else NegInf) else Finite y)"

text \<open>The float64 operations numpy uses here, each rounded once.\<close>

fun f64_mul :: "npfloat \<Rightarrow> npfloat \<Rightarrow> npfloat" where
  "f64_mul (Finite a) (Finite b) = f64_round (a * b)"
| "f64_mul NaN y = NaN"
| "f64_mul x NaN = NaN"
| "f64_mul (Finite a) y =
     (if a = 0 then NaN else if (a < 0) = (y = NegInf) then PosInf else NegInf)"
| "f64_mul x (Finite b) =
     (if b = 0 then NaN else if (b < 0) = (x = NegInf) then PosInf else NegInf)"
| "f64_mul x y = (if x = y then PosInf else NegInf)"

fun f64_add :: "npfloat \<Rightarrow> npfloat \<Rightarrow> npfloat" where
  "f64_add (Finite a) (Finite b) = f64_round (a + b)"
| "f64_add NaN y = NaN"
| "f64_add x NaN = NaN"
| "f64_add (Finite a) y = y"
| "f64_add x (Finite b) = x"
| "f64_add x y = (if x = y then x else NaN)"

fun f64_sqrt :: "npfloat \<Rightarrow> npfloat" where
  "f64_sqrt (Finite a) = (if a < 0 then NaN else f64_round (sqrt a))"
| "f64_sqrt PosInf = PosInf"
| "f64_sqrt x = NaN"

text \<open>
  \<^verbatim>\<open>np.linalg.norm\<close> of a vector: the square root of the dot product of the vector
  with itself. The order in which the products are added is the library's; here they
  are added from left to right.
\<close>

definition linalg_norm :: "npfloat list \<Rightarrow> npfloat" where
  "linalg_norm v = f64_sqrt (foldl (\<lambda>s x. f64_add s (f64_mul x x)) (Finite 0) v)"

text \<open>
  numpy's division of one float64 by another. A zero divisor gives NaN or an infinity
  with a warning, not an exception; the divisor here is a norm, so a zero divisor is
  the positive zero.
\<close>

fun np_divide :: "npfloat \<Rightarrow> npfloat \<Rightarrow> npfloat" where
  "np_divide (Finite a) (Finite b) =
     (if b \<noteq> 0 then f64_round (a / b)
      else if a = 0 then NaN else if 0 < a then PosInf else NegInf)"
| "np_divide NaN y = NaN"
| "np_divide x NaN = NaN"
| "np_divide (Finite a) y = Finite 0"
| "np_divide x (Finite b) = (if (b < 0) = (x = NegInf) then PosInf else NegInf)"
| "np_divide x y = NaN"

text \<open>\<^verbatim>\<open>embedding /= np.linalg.norm(embedding)\<close>, as written at both places.\<close>

definition normalize :: "npfloat list \<Rightarrow> npfloat list" where
  "normalize embedding = map (\<lambda>x. np_divide x (linalg_norm embedding)) embedding"

text \<open>
  \<^verbatim>\<open>f"{x:.8f}"\<close> rounds to eight decimals, ties to even; the literal
  \<^verbatim>\<open>"[" + ",".join(...) + "]"\<close> is kept as the list of the numbers it writes
  (\<^verbatim>\<open>nan\<close> and \<^verbatim>\<open>inf\<close> are written as such).
\<close>

definition fmt8 :: "npfloat \<Rightarrow> npfloat" where
  "fmt8 x = (case x of Finite y \<Rightarrow> Finite (of_int (round_half_even (y * 10 ^ 8)) / 10 ^ 8) | _ \<Rightarrow> x)"

definition vec_str :: "npfloat list \<Rightarrow> npfloat list" where
  "vec_str embedding = map fmt8 embedding"

section \<open>The database\<close>

text \<open>One round trip to the server: it fails when the next entry of \<open>faults\<close> says so.\<close>

definition db_roundtrip :: "unit io" where
  "db_roundtrip w =
     (case faults w of
        [] \<Rightarrow> (Inr (), w)
      | b # bs \<Rightarrow> (if b then Inl PostgresError else Inr (), w\<lparr>faults := bs\<rparr>))"

definition db_send :: "stmt \<Rightarrow> unit io" where
  "db_send s w = db_roundtrip (w\<lparr>sent := sent w @ [s]\<rparr>)"

text \<open>
  The input function of the vector type: a literal with \<^verbatim>\<open>nan\<close> or \<^verbatim>\<open>inf\<close>, or with
  no component, is rejected. The dimension declared for the column is not part of the
  source and is not modelled: a vector of any positive dimension is accepted.
\<close>

fun finite_of :: "npfloat \<Rightarrow> real option" where
  "finite_of (Finite y) = Some y"
| "finite_of _ = None"

definition vector_in :: "npfloat list \<Rightarrow> real list option" where
  "vector_in lit =
     (if lit = [] \<or> (\<exists>x \<in> set lit. finite_of x = None) then None
      else Some (map (\<lambda>x. the (finite_of x)) lit))"

text \<open>\<^verbatim>\<open>SELECT file_hash FROM source_documents WHERE file_path = $1\<close> with \<^verbatim>\<open>fetchrow\<close>.\<close>

definition select_file_hash :: "string \<Rightarrow> string option io" where
  "select_file_hash p =
     io_bind db_roundtrip (\<lambda>_ w.
       (Inr (map_option sd_file_hash (find (\<lambda>r. sd_file_path r = p) (docs w))), w))"

text \<open>\<^verbatim>\<open>SELECT id FROM source_documents WHERE file_path = $1\<close> with \<^verbatim>\<open>fetchrow\<close>.\<close>

definition select_id :: "string \<Rightarrow> nat option io" where
  "select_id p =
     io_bind db_roundtrip (\<lambda>_ w.
       (Inr (map_option sd_id (find (\<lambda>r. sd_file_path r = p) (docs w))), w))"

text \<open>\<^verbatim>\<open>UPDATE source_documents SET file_hash = $1, last_indexed_at = CURRENT_TIMESTAMP
  WHERE file_path = $2\<close>.\<close>

definition update_document :: "string \<Rightarrow> string \<Rightarrow> unit io" where
  "update_document h p =
     io_bind (db_send (UpdateDocument h p)) (\<lambda>_ w.
       (Inr (),
        w\<lparr>docs := map (\<lambda>r. if sd_file_path r = p
                             then r\<lparr>sd_file_hash := h, sd_last_indexed_at := Some (now w)\<rparr>
                             else r) (docs w)\<rparr>))"

text \<open>\<^verbatim>\<open>DELETE FROM document_chunks WHERE source_id = $1\<close>.\<close>

definition delete_chunks :: "nat \<Rightarrow> unit io" where
  "delete_chunks i =
     io_bind (db_send (DeleteChunks i)) (\<lambda>_ w.
       (Inr (), w\<lparr>chunks := filter (\<lambda>c. dc_source_id c \<noteq> i) (chunks w)\<rparr>))"

text \<open>
  \<^verbatim>\<open>INSERT INTO source_documents (file_path, file_hash) VALUES ($1, $2) RETURNING id\<close>:
  the id comes from the sequence; the statement names no value for
  \<^verbatim>\<open>last_indexed_at\<close>.
\<close>

definition insert_document :: "string \<Rightarrow> string \<Rightarrow> nat io" where
  "insert_document p h =
     io_bind (db_send (InsertDocument p h)) (\<lambda>_ w.
       (Inr (doc_seq w),
        w\<lparr>docs := docs w @ [\<lparr>sd_id = doc_seq w, sd_file_path = p, sd_file_hash = h,
                               sd_last_indexed_at = None\<rparr>],
          doc_seq := Suc (doc_seq w)\<rparr>))"

text \<open>\<^verbatim>\<open>INSERT INTO document_chunks (source_id, chunk_text, embedding, metadata)
  VALUES ($1, $2, $3, $4)\<close>.\<close>

definition insert_chunk :: "nat \<Rightarrow> string \<Rightarrow> npfloat list \<Rightarrow> metadata \<Rightarrow> unit io" where
  "insert_chunk source_id txt lit md =
     io_bind (db_send (InsertChunk source_id txt lit md)) (\<lambda>_ w.
       (case vector_in lit of
          None \<Rightarrow> (Inl DataError, w)
        | Some v \<Rightarrow>
            (Inr (),
             w\<lparr>chunks := chunks w @ [\<lparr>dc_id = chunk_seq w, dc_source_id = source_id,
                                       dc_chunk_text = txt, dc_embedding = v,
                                       dc_metadata = md\<rparr>],
               chunk_seq := Suc (chunk_seq w)\<rparr>)))"

section \<open>The indexer\<close>

definition check_file_needs_update :: "md_file \<Rightarrow> string \<Rightarrow> bool io" where
  "check_file_needs_update f file_hash =
     io_bind (select_file_hash (f_rel f)) (\<lambda>result.
       (case result of
          None \<Rightarrow> io_return True
        | Some h \<Rightarrow> io_return (h \<noteq> file_hash)))"

definition update_source_document :: "md_file \<Rightarrow> string \<Rightarrow> nat io" where
  "update_source_document f file_hash =
     io_bind (select_id (f_rel f)) (\<lambda>existing.
       (case existing of
          Some i \<Rightarrow>
            io_bind (update_document file_hash (f_rel f)) (\<lambda>_.
            io_bind (delete_chunks i) (\<lambda>_.
            io_return i))
        | None \<Rightarrow> insert_document (f_rel f) file_hash))"

text \<open>The body of the \<^verbatim>\<open>try\<close> inside the loop of \<^verbatim>\<open>insert_chunks\<close>.\<close>

definition embed_and_insert :: "nat \<Rightarrow> pchunk \<Rightarrow> unit io" where
  "embed_and_insert source_id chunk =
     io_bind (get_embedding (pc_text chunk)) (\<lambda>embedding.
       insert_chunk source_id (pc_text chunk) (vec_str (normalize embedding))
         (pc_metadata chunk))"

fun insert_chunks :: "nat \<Rightarrow> pchunk list \<Rightarrow> unit io" where
  "insert_chunks source_id [] = io_return ()"
| "insert_chunks source_id (chunk # rest) =
     io_bind (io_catch (embed_and_insert source_id chunk)) (\<lambda>_.
       insert_chunks source_id rest)"

definition index_file_body :: "libs \<Rightarrow> md_file \<Rightarrow> unit io" where
  "index_file_body L f =
     io_bind (io_lift (calculate_file_hash L f)) (\<lambda>file_hash.
     io_bind (check_file_needs_update f file_hash) (\<lambda>needs_update.
       if \<not> needs_update then io_return ()
       else
         io_bind (io_lift (process_markdown_file L f)) (\<lambda>chunks.
           if chunks = [] then io_return ()
           else
             io_bind (update_source_document f file_hash) (\<lambda>source_id.
               insert_chunks source_id chunks))))"

definition index_file :: "libs \<Rightarrow> md_file \<Rightarrow> unit io" where
  "index_file L f = io_catch (index_file_body L f)"

text \<open>The loop \<^verbatim>\<open>for file_path in markdown_files\<close>: an exception would leave it.\<close>

fun index_files :: "libs \<Rightarrow> md_file list \<Rightarrow> unit io" where
  "index_files L [] = io_return ()"
| "index_files L (f # fs) = io_bind (index_file L f) (\<lambda>_. index_files L fs)"

text \<open>
  \<^verbatim>\<open>asyncpg.connect\<close> is a round trip that can fail, before the \<^verbatim>\<open>try\<close>;
  \<^verbatim>\<open>conn.close()\<close> in the \<^verbatim>\<open>finally\<close> changes nothing that is modelled.
\<close>

definition index_all_files :: "libs \<Rightarrow> md_file list \<Rightarrow> unit io" where
  "index_all_files L markdown_files =
     io_bind db_roundtrip (\<lambda>_. index_files L markdown_files)"

section \<open>Search\<close>

record hit =
  hit_text :: string
  hit_metadata :: metadata
  hit_file_path :: string
  hit_distance :: real

text \<open>The operator \<^verbatim>\<open><->\<close>: Euclidean distance.\<close>

definition l2_distance :: "real list \<Rightarrow> real list \<Rightarrow> real" where
  "l2_distance a b = sqrt (sum_list (map (\<lambda>(x, y). (x - y)\<^sup>2) (zip a b)))"

text \<open>\<^verbatim>\<open>FROM document_chunks dc JOIN source_documents sd ON dc.source_id = sd.id\<close>.\<close>

definition joined :: "world \<Rightarrow> (document_chunk \<times> source_document) list" where
  "joined w = concat (map (\<lambda>dc. map (\<lambda>sd. (dc, sd)) (filter (\<lambda>sd. dc_source_id dc = sd_id sd) (docs w))) (chunks w))"

text \<open>The columns selected from a joined row, with the distance to the query vector;
  the list comprehension of \<^verbatim>\<open>search_similar\<close> copies them into a dictionary.\<close>

definition distance_to :: "real list \<Rightarrow> document_chunk \<times> source_document \<Rightarrow> real" where
  "distance_to q row = l2_distance (dc_embedding (fst row)) q"

definition select_row :: "real list \<Rightarrow> document_chunk \<times> source_document \<Rightarrow> hit" where
  "select_row q row =
     \<lparr>hit_text = dc_chunk_text (fst row), hit_metadata = dc_metadata (fst row),
      hit_file_path = sd_file_path (snd row), hit_distance = distance_to q row\<rparr>"

text \<open>
  The query of \<^verbatim>\<open>search_similar\<close>. The server rejects a query vector that is not a
  vector, a negative \<^verbatim>\<open>LIMIT\<close>, and a distance between vectors of different
  dimensions; otherwise the joined rows are sorted by distance and cut at the limit.
\<close>

definition select_nearest :: "npfloat list \<Rightarrow> int \<Rightarrow> hit list io" where
  "select_nearest lit limit =
     io_bind db_roundtrip (\<lambda>_ w.
       (case vector_in lit of
          None \<Rightarrow> (Inl DataError, w)
        | Some q \<Rightarrow>
            if limit < 0 \<or> (\<exists>row \<in> set (joined w). length (dc_embedding (fst row)) \<noteq> length q)
            then (Inl DataError, w)
            else
              (Inr (map (select_row q) (take (nat limit) (sort_key (distance_to q) (joined w)))),
               w)))"

definition search_similar :: "string \<Rightarrow> int \<Rightarrow> hit list io" where
  "search_similar query limit =
     io_bind db_roundtrip (\<lambda>_.
     io_bind (get_embedding query) (\<lambda>query_embedding.
       select_nearest (vec_str (normalize query_embedding)) limit))"

section \<open>Vocabulary of the properties\<close>

text \<open>The next round trip to the database succeeds; no coming round trip fails.\<close>

definition next_ok :: "world \<Rightarrow> bool" where
  "next_ok w = (case faults w of [] \<Rightarrow> True | b # bs \<Rightarrow> \<not> b)"

definition no_faults :: "world \<Rightarrow> bool" where
  "no_faults w = (\<forall>b \<in> set (faults w). \<not> b)"

text \<open>What the database holds together with the write statements it has been sent.\<close>

definition tables ::
  "world \<Rightarrow> source_document list \<times> document_chunk list \<times> nat \<times> nat \<times> stmt list" where
  "tables w = (docs w, chunks w, doc_seq w, chunk_seq w, sent w)"

text \<open>The fingerprint the first row of a path stores.\<close>

definition stored_hash :: "string \<Rightarrow> world \<Rightarrow> string option" where
  "stored_hash p w = map_option sd_file_hash (find (\<lambda>r. sd_file_path r = p) (docs w))"

text \<open>The stored fingerprint of a file is the fingerprint of its current bytes.\<close>

definition up_to_date :: "libs \<Rightarrow> md_file \<Rightarrow> world \<Rightarrow> bool" where
  "up_to_date L f w =
     (case calculate_file_hash L f of
        Inl e \<Rightarrow> False
      | Inr h \<Rightarrow> stored_hash (f_rel f) w = Some h)"

text \<open>
  A file is settled when indexing it reaches no write: it cannot be hashed, or its
  fingerprint is stored, or it cannot be read, or it gives no chunk.
\<close>

definition settled :: "libs \<Rightarrow> md_file \<Rightarrow> world \<Rightarrow> bool" where
  "settled L f w =
     (case calculate_file_hash L f of
        Inl e \<Rightarrow> True
      | Inr h \<Rightarrow>
          stored_hash (f_rel f) w = Some h \<or>
          (case process_markdown_file L f of Inl e \<Rightarrow> True | Inr cs \<Rightarrow> cs = []))"

definition preserves :: "(world \<Rightarrow> bool) \<Rightarrow> 'a io \<Rightarrow> bool" where
  "preserves P m = (\<forall>w. P w \<longrightarrow> P (snd (m w)))"

section \<open>Example data\<close>

definition demo_libs :: libs where
  "demo_libs = \<lparr>sha256 = (\<lambda>b. ''sha:'' @ b), utf8_decode = Some,
                 split_text = (\<lambda>s. [\<lparr>page_content = s, seg_metadata = []\<rparr>])\<rparr>"

definition note_a :: md_file where
  "note_a = \<lparr>f_name = ''a.md'', f_rel = ''a.md'', f_bytes = Some ''hello''\<rparr>"

definition note_blank :: md_file where
  "note_blank = \<lparr>f_name = ''b.md'', f_rel = ''b.md'', f_bytes = Some '' ''\<rparr>"

text \<open>A database that holds the fingerprint of \<open>note_a\<close> and no chunk of it, with
  both services up.\<close>

definition chunkless_world :: world where
  "chunkless_world =
     \<lparr>docs = [\<lparr>sd_id = 1, sd_file_path = ''a.md'', sd_file_hash = ''sha:hello'',
               sd_last_indexed_at = None\<rparr>],
      chunks = [], doc_seq = 2, chunk_seq = 1, now = 7, sent = [], faults = [],
      replies = [\<lambda>_. Embedding [Finite 3, Finite 4], \<lambda>_. Embedding [Finite 3, Finite 4]]\<rparr>"

text \<open>A database that holds an old fingerprint and an old chunk of \<open>note_blank\<close>.\<close>

definition stale_world :: world where
  "stale_world =
     \<lparr>docs = [\<lparr>sd_id = 1, sd_file_path = ''b.md'', sd_file_hash = ''sha:old'',
               sd_last_indexed_at = Some 3\<rparr>],
      chunks = [\<lparr>dc_id = 1, dc_source_id = 1, dc_chunk_text = ''old'', dc_embedding = [1, 0],
                 dc_metadata = \<lparr>md_file_name = ''b.md'', md_chunk_index = 0, md_headers = [],
                                md_file_path = ''b.md''\<rparr>\<rparr>],
      doc_seq = 2, chunk_seq = 2, now = 7, sent = [], faults = [],
      replies = [\<lambda>_. Embedding [Finite 3, Finite 4]]\<rparr>"

text \<open>An empty database with both services up.\<close>

definition fresh_world :: world where
  "fresh_world =
     \<lparr>docs = [], chunks = [], doc_seq = 1, chunk_seq = 1, now = 7, sent = [], faults = [],
      replies = [\<lambda>_. Embedding [Finite 3, Finite 4]]\<rparr>"

definition note_c :: md_file where
  "note_c = \<lparr>f_name = ''c.md'', f_rel = ''sub/c.md'', f_bytes = Some ''world''\<rparr>"

definition flaky_world :: world where
  "flaky_world = fresh_world\<lparr>faults := [False, True]\<rparr>"

definition note_b :: md_file where
  "note_b = \<lparr>f_name = ''b.md'', f_rel = ''b.md'', f_bytes = Some ''new''\<rparr>"

definition two_libs :: libs where
  "two_libs = \<lparr>sha256 = (\<lambda>b. ''sha:'' @ b), utf8_decode = Some,
                split_text = (\<lambda>s. [\<lparr>page_content = ''hello'', seg_metadata = [(''Header 1'', ''A'')]\<rparr>,
                                    \<lparr>page_content = ''world'',
                                     seg_metadata = [(''Header 1'', ''A''), (''Header 2'', ''B'')]\<rparr>])\<rparr>"

text \<open>An empty database whose embedding service fails on the first request only.\<close>

definition first_embedding_fails_world :: world where
  "first_embedding_fails_world =
     fresh_world\<lparr>replies := [\<lambda>_. HttpError ''busy'', \<lambda>_. Embedding [Finite 3, Finite 4]]\<rparr>"

text \<open>A database with two documents and three chunks, with both services up.\<close>

definition library_world :: world where
  "library_world =
     \<lparr>docs = [\<lparr>sd_id = 1, sd_file_path = ''a.md'', sd_file_hash = ''sha:hello'',
               sd_last_indexed_at = None\<rparr>,
              \<lparr>sd_id = 2, sd_file_path = ''sub/c.md'', sd_file_hash = ''sha:world'',
               sd_last_indexed_at = None\<rparr>],
      chunks = [\<lparr>dc_id = 1, dc_source_id = 1, dc_chunk_text = ''east'', dc_embedding = [1, 0],
                 dc_metadata = \<lparr>md_file_name = ''a.md'', md_chunk_index = 0, md_headers = [],
                                md_file_path = ''a.md''\<rparr>\<rparr>,
                \<lparr>dc_id = 2, dc_source_id = 1, dc_chunk_text = ''north'', dc_embedding = [0, 1],
                 dc_metadata = \<lparr>md_file_name = ''a.md'', md_chunk_index = 1, md_headers = [],
                                md_file_path = ''a.md''\<rparr>\<rparr>,
                \<lparr>dc_id = 3, dc_source_id = 2, dc_chunk_text = ''world'',
                 dc_embedding = [3 / 5, 4 / 5],
                 dc_metadata = \<lparr>md_file_name = ''c.md'', md_chunk_index = 0, md_headers = [],
                                md_file_path = ''sub/c.md''\<rparr>\<rparr>],
      doc_seq = 3, chunk_seq = 4, now = 7, sent = [], faults = [],
      replies = [\<lambda>_. Embedding [Finite 3, Finite 4]]\<rparr>"

text \<open>An empty database whose embedding service answers with the zero vector.\<close>

definition zero_reply_world :: world where
  "zero_reply_world = fresh_world\<lparr>replies := [\<lambda>_. Embedding [Finite 0, Finite 0]]\<rparr>"

definition hello_chunk :: pchunk where
  "hello_chunk =
     \<lparr>pc_text = ''hello'',
      pc_metadata = \<lparr>md_file_name = ''a.md'', md_chunk_index = 0, md_headers = [],
                     md_file_path = ''a.md''\<rparr>\<rparr>"

text \<open>\<^verbatim>\<open>float("1e200")\<close> and \<^verbatim>\<open>float("1e-200")\<close>, and an empty database whose embedding
  service answers with \<^verbatim>\<open>[1e200, 1e200]\<close>.\<close>

definition f64_1e200 :: npfloat where
  "f64_1e200 = f64_round (10 ^ 200)"

definition overflow_reply_world :: world where
  "overflow_reply_world = fresh_world\<lparr>replies := [\<lambda>_. Embedding [f64_1e200, f64_1e200]]\<rparr>"

text \<open>The Euclidean norm of a stored vector.\<close>

definition vector_norm :: "real list \<Rightarrow> real" where
  "vector_norm v = sqrt (sum_list (map (\<lambda>x. x\<^sup>2) v))"

definition f64_1em200 :: npfloat where
  "f64_1em200 = f64_round (1 / 10 ^ 200)"

section \<open>The reindex check\<close>

lemma find_distinct_path:
  "distinct (map sd_file_path ds) \<Longrightarrow>
   (find (\<lambda>r. sd_file_path r = p) ds = Some r) = (r \<in> set ds \<and> sd_file_path r = p)"
  by (induction ds) (auto simp: image_iff)

lemma find_None_path:
  "(find (\<lambda>r. sd_file_path r = p) ds = None) = (\<forall>r \<in> set ds. sd_file_path r \<noteq> p)"
  by (auto simp: find_None_iff)

lemma check_result:
  "next_ok w \<Longrightarrow>
   fst (check_file_needs_update f h w) =
     Inr (case find (\<lambda>r. sd_file_path r = f_rel f) (docs w) of
            None \<Rightarrow> True | Some r \<Rightarrow> sd_file_hash r \<noteq> h)"
  by (simp add: check_file_needs_update_def select_file_hash_def io_bind_def db_roundtrip_def
      io_return_def next_ok_def split: list.splits option.splits)

lemma check_tables:
  "tables (snd (check_file_needs_update f h w)) = tables w"
  by (simp add: check_file_needs_update_def select_file_hash_def io_bind_def db_roundtrip_def
      io_return_def tables_def split: list.splits option.splits)

text \<open>
  C8. When the query reaches the database and paths are unique in
  \<^verbatim>\<open>source_documents\<close>, \<^verbatim>\<open>check_file_needs_update\<close> returns true if and only if no
  row has the path or the row of the path stores another fingerprint; it returns false
  exactly when a row with the path and an equal fingerprint exists.
\<close>

theorem check_file_needs_update_iff:
  assumes "next_ok w" and "distinct (map sd_file_path (docs w))"
  shows "fst (check_file_needs_update f h w) =
           Inr ((\<forall>r \<in> set (docs w). sd_file_path r \<noteq> f_rel f) \<or>
                (\<exists>r \<in> set (docs w). sd_file_path r = f_rel f \<and> sd_file_hash r \<noteq> h))
         \<and> (fst (check_file_needs_update f h w) = Inr False) =
           (\<exists>r \<in> set (docs w). sd_file_path r = f_rel f \<and> sd_file_hash r = h)"
proof (cases "find (\<lambda>r. sd_file_path r = f_rel f) (docs w)")
  case None
  then have none: "\<forall>r \<in> set (docs w). sd_file_path r \<noteq> f_rel f"
    by (simp add: find_None_path)
  have "fst (check_file_needs_update f h w) = Inr True"
    using None assms(1) by (simp add: check_result)
  with none show ?thesis by auto
next
  case (Some r)
  then have r: "r \<in> set (docs w)" "sd_file_path r = f_rel f"
    using find_distinct_path [OF assms(2)] by auto
  have uniq: "sd_file_hash r' = sd_file_hash r"
    if "r' \<in> set (docs w)" "sd_file_path r' = f_rel f" for r'
    using that Some find_distinct_path [OF assms(2), of "f_rel f" r'] by simp
  have res: "fst (check_file_needs_update f h w) = Inr (sd_file_hash r \<noteq> h)"
    using Some assms(1) by (simp add: check_result)
  have a: "(\<exists>r' \<in> set (docs w). sd_file_path r' = f_rel f \<and> sd_file_hash r' \<noteq> h)
             = (sd_file_hash r \<noteq> h)"
    using r uniq by metis
  have b: "(\<exists>r' \<in> set (docs w). sd_file_path r' = f_rel f \<and> sd_file_hash r' = h)
             = (sd_file_hash r = h)"
    using r uniq by metis
  have c: "(\<forall>r' \<in> set (docs w). sd_file_path r' \<noteq> f_rel f) = False"
    using r by blast
  show ?thesis
    unfolding res a b c by simp
qed

theorem check_file_needs_update_iff_witness:
  "next_ok chunkless_world \<and> distinct (map sd_file_path (docs chunkless_world))
   \<and> fst (check_file_needs_update note_a ''sha:hello'' chunkless_world) = Inr False
   \<and> fst (check_file_needs_update note_a ''sha:other'' chunkless_world) = Inr True"
proof -
  have ok: "next_ok chunkless_world"
    by (simp add: next_ok_def chunkless_world_def)
  have uniq: "distinct (map sd_file_path (docs chunkless_world))"
    by (simp add: chunkless_world_def)
  show ?thesis
    using ok uniq check_file_needs_update_iff [OF ok uniq, of note_a "''sha:hello''"]
      check_file_needs_update_iff [OF ok uniq, of note_a "''sha:other''"]
    by (simp add: chunkless_world_def note_a_def)
qed

subsection \<open>Rules for the combinators\<close>

lemma snd_io_catch: "snd (io_catch m w) = snd (m w)"
  by (simp add: io_catch_def split: prod.splits sum.splits)

lemma fst_io_catch: "fst (io_catch m w) = Inr ()"
  by (simp add: io_catch_def split: prod.splits sum.splits)

lemma io_catch_eq: "io_catch m w = (Inr (), snd (m w))"
  by (simp add: io_catch_def split: prod.splits sum.splits)

lemma preservesD: "preserves P m \<Longrightarrow> P w \<Longrightarrow> P (snd (m w))"
  by (simp add: preserves_def)

lemma preserves_return: "preserves P (io_return x)"
  by (simp add: preserves_def io_return_def)

lemma preserves_lift: "preserves P (io_lift r)"
  by (simp add: preserves_def io_lift_def)

lemma preserves_bind:
  assumes "preserves P m" and "\<And>x. preserves P (k x)"
  shows "preserves P (io_bind m k)"
  unfolding preserves_def
proof (intro allI impI)
  fix w assume "P w"
  then have "P (snd (m w))" using assms(1) by (simp add: preserves_def)
  then show "P (snd (io_bind m k w))"
    using assms(2) by (cases "m w") (auto simp: io_bind_def preserves_def split: sum.splits)
qed

lemma preserves_catch: "preserves P m \<Longrightarrow> preserves P (io_catch m)"
  by (simp add: preserves_def snd_io_catch)

subsection \<open>What the statements preserve\<close>

lemma preserves_roundtrip:
  assumes "\<And>w fs. P w \<Longrightarrow> P (w\<lparr>faults := fs\<rparr>)"
  shows "preserves P db_roundtrip"
  using assms by (auto simp: preserves_def db_roundtrip_def split: list.splits)

lemma no_faults_roundtrip: "preserves no_faults db_roundtrip"
  by (auto simp: preserves_def db_roundtrip_def no_faults_def split: list.splits)

lemma no_faults_roundtrip_ok: "no_faults w \<Longrightarrow> fst (db_roundtrip w) = Inr ()"
  by (auto simp: db_roundtrip_def no_faults_def split: list.splits)

lemma roundtrip_cases:
  obtains (raised) e fs where "db_roundtrip w = (Inl e, w\<lparr>faults := fs\<rparr>)" "\<not> no_faults w"
  | (returned) fs where "db_roundtrip w = (Inr (), w\<lparr>faults := fs\<rparr>)"
      "no_faults w \<longrightarrow> no_faults (w\<lparr>faults := fs\<rparr>)"
proof (cases "faults w")
  case Nil
  then have "db_roundtrip w = (Inr (), w\<lparr>faults := []\<rparr>)"
    by (simp add: db_roundtrip_def)
  then show ?thesis using returned [of "[]"] by (simp add: no_faults_def)
next
  case (Cons b bs)
  then show ?thesis
    using raised [of PostgresError bs] returned [of bs]
    by (cases b) (auto simp: db_roundtrip_def no_faults_def)
qed

subsection \<open>Looking a path up in the documents table\<close>

lemma find_update_other:
  "q \<noteq> p \<Longrightarrow>
   find (\<lambda>r. sd_file_path r = p)
     (map (\<lambda>r. if sd_file_path r = q then r\<lparr>sd_file_hash := h, sd_last_indexed_at := t\<rparr> else r) ds)
   = find (\<lambda>r. sd_file_path r = p) ds"
  by (induction ds) auto

lemma find_update_same:
  "find (\<lambda>r. sd_file_path r = p)
     (map (\<lambda>r. if sd_file_path r = p then r\<lparr>sd_file_hash := h, sd_last_indexed_at := t\<rparr> else r) ds)
   = map_option (\<lambda>r. r\<lparr>sd_file_hash := h, sd_last_indexed_at := t\<rparr>)
       (find (\<lambda>r. sd_file_path r = p) ds)"
  by (induction ds) auto

lemma find_snoc:
  "find P (ds @ [d]) = (case find P ds of None \<Rightarrow> (if P d then Some d else None) | Some r \<Rightarrow> Some r)"
  by (induction ds) auto

subsection \<open>Outcomes of the reindex check\<close>

lemma check_cases:
  obtains (raised) e fs where "check_file_needs_update f h w = (Inl e, w\<lparr>faults := fs\<rparr>)"
      "\<not> no_faults w"
  | (returned) fs where
      "check_file_needs_update f h w = (Inr (stored_hash (f_rel f) w \<noteq> Some h), w\<lparr>faults := fs\<rparr>)"
      "no_faults w \<longrightarrow> no_faults (w\<lparr>faults := fs\<rparr>)"
proof (cases w rule: roundtrip_cases)
  case (raised e fs)
  then have "check_file_needs_update f h w = (Inl e, w\<lparr>faults := fs\<rparr>)"
    by (simp add: check_file_needs_update_def select_file_hash_def io_bind_def)
  then show ?thesis using raised(2) by (rule that(1))
next
  case (returned fs)
  then have "check_file_needs_update f h w =
      (Inr (stored_hash (f_rel f) w \<noteq> Some h), w\<lparr>faults := fs\<rparr>)"
    by (auto simp add: check_file_needs_update_def select_file_hash_def io_bind_def io_return_def
        stored_hash_def split: option.splits)
  then show ?thesis using returned(2) by (rule that(2))
qed

lemma check_no_faults: "preserves no_faults (check_file_needs_update f h)"
  unfolding preserves_def
proof (intro allI impI)
  fix w assume "no_faults w"
  then show "no_faults (snd (check_file_needs_update f h w))"
    by (cases f h w rule: check_cases) simp_all
qed

subsection \<open>The upsert\<close>

lemma update_source_document_other:
  assumes "p \<noteq> f_rel f"
  shows "preserves (\<lambda>w. stored_hash p w = c) (update_source_document f h)"
  using assms
  by (auto simp: preserves_def update_source_document_def select_id_def update_document_def
      delete_chunks_def insert_document_def db_send_def db_roundtrip_def io_bind_def io_return_def
      stored_hash_def find_update_other find_snoc split: list.splits option.splits)

lemma update_source_document_no_faults:
  assumes "no_faults w"
  shows "\<exists>i w'. update_source_document f h w = (Inr i, w') \<and> stored_hash (f_rel f) w' = Some h
           \<and> no_faults w'"
  using assms
  by (auto simp: update_source_document_def select_id_def update_document_def
      delete_chunks_def insert_document_def db_send_def db_roundtrip_def io_bind_def io_return_def
      stored_hash_def find_update_same find_snoc no_faults_def split: list.splits option.splits)


lemma tables_faults [simp]: "tables (w\<lparr>faults := fs\<rparr>) = tables w"
  by (simp add: tables_def)

lemma stored_hash_faults [simp]: "stored_hash p (w\<lparr>faults := fs\<rparr>) = stored_hash p w"
  by (simp add: stored_hash_def)

lemma preserves_check:
  assumes "\<And>w fs. P w \<Longrightarrow> P (w\<lparr>faults := fs\<rparr>)"
  shows "preserves P (check_file_needs_update f h)"
  unfolding preserves_def
proof (intro allI impI)
  fix w assume pw: "P w"
  show "P (snd (check_file_needs_update f h w))"
  proof (cases f h w rule: check_cases)
    case (raised e fs)
    then show ?thesis using assms [OF pw, of fs] by simp
  next
    case (returned fs)
    then show ?thesis using assms [OF pw, of fs] by simp
  qed
qed

lemma get_embedding_preserves:
  assumes "\<And>w rs. P w \<Longrightarrow> P (w\<lparr>replies := rs\<rparr>)"
  shows "preserves P (get_embedding t)"
  using assms by (auto simp: preserves_def get_embedding_def split: list.splits reply.splits)

lemma insert_chunk_docs: "preserves (\<lambda>w. docs w = d) (insert_chunk i t lit md)"
  by (auto simp: preserves_def insert_chunk_def db_send_def db_roundtrip_def io_bind_def
      split: list.splits option.splits)

lemma insert_chunk_no_faults: "preserves no_faults (insert_chunk i t lit md)"
  by (auto simp: preserves_def insert_chunk_def db_send_def db_roundtrip_def io_bind_def
      no_faults_def split: list.splits option.splits)

lemma embed_and_insert_docs: "preserves (\<lambda>w. docs w = d) (embed_and_insert i c)"
  unfolding embed_and_insert_def
  by (intro preserves_bind get_embedding_preserves insert_chunk_docs) simp

lemma embed_and_insert_no_faults: "preserves no_faults (embed_and_insert i c)"
  unfolding embed_and_insert_def
  by (intro preserves_bind get_embedding_preserves insert_chunk_no_faults)
    (simp add: no_faults_def)

lemma insert_chunks_preserves:
  assumes "\<And>c. preserves P (embed_and_insert i c)"
  shows "preserves P (insert_chunks i cs)"
  by (induction cs) (simp_all add: preserves_return preserves_bind preserves_catch assms)

lemma insert_chunks_returns: "fst (insert_chunks i cs w) = Inr ()"
  by (induction cs arbitrary: w) (simp_all add: io_return_def io_bind_def io_catch_eq)

lemma stored_hash_docs: "docs w' = docs w \<Longrightarrow> stored_hash p w' = stored_hash p w"
  by (simp add: stored_hash_def)

lemma insert_chunks_docs: "docs (snd (insert_chunks i cs w)) = docs w"
proof -
  have "preserves (\<lambda>w'. docs w' = docs w) (insert_chunks i cs)"
    by (rule insert_chunks_preserves) (rule embed_and_insert_docs)
  then show ?thesis by (simp add: preserves_def)
qed

lemma insert_chunks_stored_hash: "stored_hash p (snd (insert_chunks i cs w)) = stored_hash p w"
  by (rule stored_hash_docs) (rule insert_chunks_docs)

lemma insert_chunks_no_faults: "preserves no_faults (insert_chunks i cs)"
  by (rule insert_chunks_preserves) (rule embed_and_insert_no_faults)

subsection \<open>Indexing one file\<close>

lemma index_file_eq: "index_file L f w = (Inr (), snd (index_file_body L f w))"
  by (simp add: index_file_def io_catch_eq)

lemma preserves_if:
  "preserves P a \<Longrightarrow> preserves P b \<Longrightarrow> preserves P (if c then a else b)"
  by simp

lemma index_file_preserves:
  assumes chk: "\<And>h. preserves P (check_file_needs_update f h)"
    and ups: "\<And>h. preserves P (update_source_document f h)"
    and ins: "\<And>i cs. preserves P (insert_chunks i cs)"
  shows "preserves P (index_file L f)"
  unfolding index_file_def index_file_body_def
  by (intro preserves_catch preserves_bind preserves_lift preserves_if preserves_return
      chk ups ins)

lemma index_file_other:
  assumes "p \<noteq> f_rel f"
  shows "preserves (\<lambda>w. stored_hash p w = c) (index_file L f)"
proof (rule index_file_preserves)
  show "preserves (\<lambda>w. stored_hash p w = c) (check_file_needs_update f h)" for h
    by (rule preserves_check) simp
  show "preserves (\<lambda>w. stored_hash p w = c) (update_source_document f h)" for h
    by (rule update_source_document_other [OF assms])
  show "preserves (\<lambda>w. stored_hash p w = c) (insert_chunks i cs)" for i cs
    by (simp add: preserves_def insert_chunks_stored_hash)
qed


lemma index_file_no_faults: "preserves no_faults (index_file L f)"
proof (rule index_file_preserves)
  show "preserves no_faults (check_file_needs_update f h)" for h
    by (rule check_no_faults)
  show "preserves no_faults (update_source_document f h)" for h
    using update_source_document_no_faults [of _ f h] by (fastforce simp: preserves_def)
  show "preserves no_faults (insert_chunks i cs)" for i cs
    by (rule insert_chunks_no_faults)
qed


lemma settled_cong:
  "stored_hash (f_rel f) w' = stored_hash (f_rel f) w \<Longrightarrow> settled L f w' = settled L f w"
  by (simp add: settled_def split: sum.splits)

lemma tables_stored_hash: "tables w' = tables w \<Longrightarrow> stored_hash p w' = stored_hash p w"
  by (simp add: tables_def stored_hash_def)

lemma tables_replies [simp]: "tables (w\<lparr>replies := rs\<rparr>) = tables w"
  by (simp add: tables_def)

lemma index_file_settled:
  assumes "settled L f w"
  shows "tables (snd (index_file L f w)) = tables w
         \<and> replies (snd (index_file L f w)) = replies w"
proof -
  have "tables (snd (index_file_body L f w)) = tables w
         \<and> replies (snd (index_file_body L f w)) = replies w"
  proof (cases "calculate_file_hash L f")
    case (Inl e)
    then show ?thesis
      by (simp add: index_file_body_def io_bind_def io_lift_def)
  next
    case (Inr h)
    show ?thesis
    proof (cases f h w rule: check_cases)
      case (raised e fs)
      then show ?thesis using Inr
        by (simp add: index_file_body_def io_bind_def io_lift_def)
    next
      case (returned fs)
      show ?thesis
      proof (cases "stored_hash (f_rel f) w = Some h")
        case True
        then show ?thesis using Inr returned
          by (simp add: index_file_body_def io_bind_def io_lift_def io_return_def)
      next
        case False
        then have "case process_markdown_file L f of Inl e \<Rightarrow> True | Inr cs \<Rightarrow> cs = []"
          using assms Inr by (simp add: settled_def)
        then show ?thesis using Inr returned False
          by (simp add: index_file_body_def io_bind_def io_lift_def io_return_def
              split: sum.splits)
      qed
    qed
  qed
  then show ?thesis
    by (simp add: index_file_eq)
qed

lemma index_file_settles:
  assumes nf: "no_faults w"
  shows "settled L f (snd (index_file L f w))"
proof (cases "settled L f w")
  case True
  then have "tables (snd (index_file L f w)) = tables w"
    by (simp add: index_file_settled)
  then have "settled L f (snd (index_file L f w)) = settled L f w"
    by (intro settled_cong tables_stored_hash)
  with True show ?thesis by simp
next
  case False
  then obtain h cs where h: "calculate_file_hash L f = Inr h"
    and old: "stored_hash (f_rel f) w \<noteq> Some h"
    and cs: "process_markdown_file L f = Inr cs" "cs \<noteq> []"
    by (auto simp: settled_def split: sum.splits)
  from nf obtain fs where chk: "check_file_needs_update f h w = (Inr True, w\<lparr>faults := fs\<rparr>)"
    and nf1: "no_faults (w\<lparr>faults := fs\<rparr>)"
    using old by (cases f h w rule: check_cases) auto
  from update_source_document_no_faults [OF nf1, of f h]
  obtain i w2 where ups: "update_source_document f h (w\<lparr>faults := fs\<rparr>) = (Inr i, w2)"
    and new: "stored_hash (f_rel f) w2 = Some h"
    by blast
  have "snd (index_file_body L f w) = snd (insert_chunks i cs w2)"
    using h chk cs ups by (simp add: index_file_body_def io_bind_def io_lift_def)
  then have "stored_hash (f_rel f) (snd (index_file L f w)) = Some h"
    using new by (simp add: index_file_eq insert_chunks_stored_hash)
  then show ?thesis
    using h by (simp add: settled_def)
qed

lemma index_file_keeps_settled:
  assumes "f_rel f' \<noteq> f_rel f" and "settled L f w"
  shows "settled L f (snd (index_file L f' w))"
proof -
  have "preserves (\<lambda>w'. stored_hash (f_rel f) w' = stored_hash (f_rel f) w) (index_file L f')"
    using assms(1) by (intro index_file_other) simp
  then have "stored_hash (f_rel f) (snd (index_file L f' w)) = stored_hash (f_rel f) w"
    by (simp add: preserves_def)
  then show ?thesis using assms(2) settled_cong by blast
qed

subsection \<open>A pass over the files\<close>

lemma index_files_step:
  "index_files L (f # fs) w = index_files L fs (snd (index_file L f w))"
  by (simp add: io_bind_def index_file_eq)

lemma index_files_returns: "fst (index_files L fs w) = Inr ()"
  by (induction fs arbitrary: w) (simp_all add: index_files_step del: index_files.simps(2), simp add: io_return_def)

lemma index_files_keeps_settled:
  assumes "f_rel f \<notin> f_rel ` set fs" and "settled L f w"
  shows "settled L f (snd (index_files L fs w))"
  using assms
proof (induction fs arbitrary: w)
  case Nil
  then show ?case by (simp add: io_return_def)
next
  case (Cons f' fs)
  then have "settled L f (snd (index_file L f' w))"
    by (intro index_file_keeps_settled) auto
  with Cons show ?case
    by (simp add: index_files_step del: index_files.simps(2))
qed

lemma first_pass_settles:
  assumes "no_faults w" and "distinct (map f_rel fs)"
  shows "\<forall>f \<in> set fs. settled L f (snd (index_files L fs w))"
  using assms
proof (induction fs arbitrary: w)
  case Nil
  then show ?case by simp
next
  case (Cons f fs)
  let ?w1 = "snd (index_file L f w)"
  have nf1: "no_faults ?w1"
    using Cons.prems(1) index_file_no_faults by (simp add: preserves_def)
  have rest: "\<forall>g \<in> set fs. settled L g (snd (index_files L fs ?w1))"
    using Cons.IH [OF nf1] Cons.prems(2) by simp
  have "settled L f ?w1"
    using Cons.prems(1) by (rule index_file_settles)
  moreover have "f_rel f \<notin> f_rel ` set fs"
    using Cons.prems(2) by simp
  ultimately have "settled L f (snd (index_files L fs ?w1))"
    by (intro index_files_keeps_settled)
  with rest show ?case
    by (simp add: index_files_step del: index_files.simps(2))
qed

lemma settled_pass_writes_nothing:
  assumes "\<forall>f \<in> set fs. settled L f w"
  shows "tables (snd (index_files L fs w)) = tables w"
  using assms
proof (induction fs arbitrary: w)
  case Nil
  then show ?case by (simp add: io_return_def)
next
  case (Cons f fs)
  let ?w1 = "snd (index_file L f w)"
  have t: "tables ?w1 = tables w"
    using Cons.prems by (simp add: index_file_settled)
  have "\<forall>g \<in> set fs. settled L g ?w1"
  proof
    fix g assume "g \<in> set fs"
    then have "settled L g w" using Cons.prems by simp
    moreover have "settled L g ?w1 = settled L g w"
      using t by (intro settled_cong tables_stored_hash)
    ultimately show "settled L g ?w1" by simp
  qed
  then have "tables (snd (index_files L fs ?w1)) = tables ?w1"
    by (rule Cons.IH)
  with t show ?case
    by (simp add: index_files_step del: index_files.simps(2))
qed


lemma up_to_date_settled: "up_to_date L f w \<Longrightarrow> settled L f w"
  by (simp add: up_to_date_def settled_def split: sum.splits)

lemma no_chunks_settled: "process_markdown_file L f = Inr [] \<Longrightarrow> settled L f w"
  by (simp add: settled_def split: sum.splits)

lemma undecodable_yields_no_chunks:
  "f_bytes f = Some b \<Longrightarrow> utf8_decode L b = None \<Longrightarrow> process_markdown_file L f = Inr []"
  by (simp add: process_markdown_file_def read_text_def)

lemma blank_yields_no_chunks:
  "f_bytes f = Some b \<Longrightarrow> utf8_decode L b = Some s \<Longrightarrow> strip s = [] \<Longrightarrow>
   process_markdown_file L f = Inr []"
  by (simp add: process_markdown_file_def read_text_def)

lemma strip_hello: "strip ''hello'' = ''hello''"
  by (simp add: strip_def isspace_def)

lemma process_note_a:
  "process_markdown_file demo_libs note_a =
     Inr [\<lparr>pc_text = ''hello'',
           pc_metadata = \<lparr>md_file_name = ''a.md'', md_chunk_index = 0, md_headers = [],
                          md_file_path = ''a.md''\<rparr>\<rparr>]"
  by (simp add: process_markdown_file_def read_text_def demo_libs_def note_a_def
      enumerate_eq_zip strip_hello)

section \<open>Claims about skipping and idempotence\<close>

text \<open>
  C1, as the code has it. A document whose row stores the fingerprint of the current
  content is skipped by \<^verbatim>\<open>index_file\<close> whatever number of chunks it owns, zero
  included: no write statement is sent, no embedding is requested, the tables stay as
  they are, and the document is up to date again afterwards. A chunk-less document is
  chunked and embedded again only once its fingerprint differs from the stored one.
\<close>

theorem up_to_date_document_is_skipped:
  assumes "up_to_date L f w"
  shows "tables (snd (index_file L f w)) = tables w
         \<and> replies (snd (index_file L f w)) = replies w
         \<and> up_to_date L f (snd (index_file L f w))"
proof -
  have same: "tables (snd (index_file L f w)) = tables w
         \<and> replies (snd (index_file L f w)) = replies w"
    using assms by (intro index_file_settled up_to_date_settled)
  then have "stored_hash (f_rel f) (snd (index_file L f w)) = stored_hash (f_rel f) w"
    by (intro tables_stored_hash) simp
  then have "up_to_date L f (snd (index_file L f w))"
    using assms by (simp add: up_to_date_def split: sum.splits)
  with same show ?thesis by simp
qed

theorem up_to_date_document_is_skipped_witness:
  "up_to_date demo_libs note_a chunkless_world
   \<and> chunks (snd (index_file demo_libs note_a chunkless_world)) = []
   \<and> sent (snd (index_file demo_libs note_a chunkless_world)) = []
   \<and> length (replies (snd (index_file demo_libs note_a chunkless_world))) = 2"
proof -
  have a: "up_to_date demo_libs note_a chunkless_world"
    by (simp add: up_to_date_def calculate_file_hash_def stored_hash_def demo_libs_def
        note_a_def chunkless_world_def)
  have "tables chunkless_world = (docs chunkless_world, [], 2, 1, [])"
    by (simp add: tables_def chunkless_world_def)
  moreover have "length (replies chunkless_world) = 2"
    by (simp add: chunkless_world_def)
  ultimately show ?thesis
    using a up_to_date_document_is_skipped [OF a] by (simp add: tables_def)
qed

text \<open>
  The claim as stated fails: the row of \<open>note_a\<close> stores the current fingerprint, no
  chunk is stored, the file does give a chunk and the embedding service answers, and
  still a full pass leaves the world exactly as it was.
\<close>

theorem chunkless_document_counterexample:
  "up_to_date demo_libs note_a chunkless_world
   \<and> chunks chunkless_world = []
   \<and> process_markdown_file demo_libs note_a \<noteq> Inr []
   \<and> index_all_files demo_libs [note_a] chunkless_world = (Inr (), chunkless_world)"
proof -
  have a: "up_to_date demo_libs note_a chunkless_world"
    by (simp add: up_to_date_def calculate_file_hash_def stored_hash_def demo_libs_def
        note_a_def chunkless_world_def)
  have b: "chunks chunkless_world = []"
    by (simp add: chunkless_world_def)
  have c: "process_markdown_file demo_libs note_a \<noteq> Inr []"
    by (simp add: process_note_a)
  have d: "index_all_files demo_libs [note_a] chunkless_world = (Inr (), chunkless_world)"
    by (simp add: calculate_file_hash_def demo_libs_def note_a_def
        chunkless_world_def index_all_files_def index_file_def index_file_body_def
        check_file_needs_update_def select_file_hash_def io_bind_def io_catch_def io_lift_def
        io_return_def db_roundtrip_def)
  from a b c d show ?thesis by blast
qed

text \<open>
  C2. After a first full pass during which no round trip to the database failed, over
  files with distinct paths, a second full pass over the same files sends no write
  statement and leaves both tables and both id sequences as the first pass left them,
  whatever the database and the embedding service do during the second pass.
\<close>

theorem second_pass_writes_nothing:
  assumes "no_faults w" and "distinct (map f_rel files)"
    and "tables w' = tables (snd (index_all_files L files w))"
  shows "tables (snd (index_all_files L files w')) = tables (snd (index_all_files L files w))"
proof -
  obtain fs where c1: "db_roundtrip w = (Inr (), w\<lparr>faults := fs\<rparr>)"
    and nf1: "no_faults (w\<lparr>faults := fs\<rparr>)"
    using assms(1) by (cases w rule: roundtrip_cases) auto
  let ?w1 = "snd (index_files L files (w\<lparr>faults := fs\<rparr>))"
  have w1: "snd (index_all_files L files w) = ?w1"
    using c1 by (simp add: index_all_files_def io_bind_def)
  have s1: "\<forall>f \<in> set files. settled L f ?w1"
    using nf1 assms(2) by (rule first_pass_settles)
  have s2: "\<forall>f \<in> set files. settled L f w'"
  proof
    fix f assume "f \<in> set files"
    then have "settled L f ?w1" using s1 by simp
    moreover have "settled L f w' = settled L f ?w1"
      using assms(3) w1 by (intro settled_cong tables_stored_hash) simp
    ultimately show "settled L f w'" by simp
  qed
  have "tables (snd (index_all_files L files w')) = tables w'"
  proof (cases w' rule: roundtrip_cases)
    case (raised e fs')
    then show ?thesis by (simp add: index_all_files_def io_bind_def)
  next
    case (returned fs')
    have "\<forall>f \<in> set files. settled L f (w'\<lparr>faults := fs'\<rparr>)"
      using s2 settled_cong [of _ "w'\<lparr>faults := fs'\<rparr>" w'] by simp
    then have "tables (snd (index_files L files (w'\<lparr>faults := fs'\<rparr>))) = tables (w'\<lparr>faults := fs'\<rparr>)"
      by (rule settled_pass_writes_nothing)
    then show ?thesis using returned by (simp add: index_all_files_def io_bind_def)
  qed
  then show ?thesis using assms(3) by simp
qed


lemma fresh_pass_docs:
  "map sd_file_path (docs (snd (index_all_files demo_libs [note_blank, note_a] fresh_world)))
     = [''a.md'']"
proof -
  have blank: "process_markdown_file demo_libs note_blank = Inr []"
    by (simp add: process_markdown_file_def read_text_def note_blank_def demo_libs_def
        strip_def isspace_def)
  have ha: "calculate_file_hash demo_libs note_a = Inr ''sha:hello''"
    and hb: "calculate_file_hash demo_libs note_blank = Inr ''sha: ''"
    by (simp_all add: calculate_file_hash_def demo_libs_def note_a_def note_blank_def)
  have rel: "f_rel note_a = ''a.md''" "f_rel note_blank = ''b.md''"
    by (simp_all add: note_a_def note_blank_def)
  show ?thesis
    by (simp add: index_all_files_def fresh_world_def io_bind_def db_roundtrip_def
        index_file_eq index_file_body_def io_lift_def ha hb rel blank process_note_a
        check_file_needs_update_def select_file_hash_def io_return_def
        update_source_document_def select_id_def insert_document_def db_send_def
        insert_chunks_docs index_files_step del: index_files.simps(2) insert_chunks.simps)
qed

theorem second_pass_writes_nothing_witness:
  "no_faults fresh_world \<and> distinct (map f_rel [note_blank, note_a])
   \<and> map sd_file_path (docs (snd (index_all_files demo_libs [note_blank, note_a] fresh_world)))
       = [''a.md'']
   \<and> tables (snd (index_all_files demo_libs [note_blank, note_a]
                 (snd (index_all_files demo_libs [note_blank, note_a] fresh_world))))
     = tables (snd (index_all_files demo_libs [note_blank, note_a] fresh_world))"
proof -
  have a: "no_faults fresh_world"
    by (simp add: no_faults_def fresh_world_def)
  have b: "distinct (map f_rel [note_blank, note_a])"
    by (simp add: note_a_def note_blank_def)
  show ?thesis
    using a b fresh_pass_docs second_pass_writes_nothing [OF a b refl, of demo_libs] by simp
qed

text \<open>
  C10. When the current content of a file gives no chunk (\<^verbatim>\<open>process_markdown_file\<close>
  returns the empty list: the bytes do not decode, the text is blank, or every segment
  is blank), \<^verbatim>\<open>index_file\<close> returns normally, sends no write statement and leaves
  both tables as they were, rows of an earlier pass included.
\<close>

theorem no_chunks_no_writes:
  assumes "process_markdown_file L f = Inr []"
  shows "tables (snd (index_file L f w)) = tables w \<and> fst (index_file L f w) = Inr ()"
proof -
  have "settled L f w"
    using assms by (rule no_chunks_settled)
  then have "tables (snd (index_file L f w)) = tables w"
    by (simp add: index_file_settled)
  moreover have "fst (index_file L f w) = Inr ()"
    by (simp add: index_file_eq)
  ultimately show ?thesis by simp
qed

theorem no_chunks_no_writes_witness:
  "process_markdown_file demo_libs note_blank = Inr []
   \<and> docs (snd (index_file demo_libs note_blank stale_world)) = docs stale_world
   \<and> chunks (snd (index_file demo_libs note_blank stale_world)) = chunks stale_world
   \<and> sent (snd (index_file demo_libs note_blank stale_world)) = []
   \<and> stored_hash ''b.md'' (snd (index_file demo_libs note_blank stale_world)) = Some ''sha:old''"
proof -
  have a: "process_markdown_file demo_libs note_blank = Inr []"
    by (rule blank_yields_no_chunks [where b = "'' ''" and s = "'' ''"])
      (simp_all add: note_blank_def demo_libs_def strip_def isspace_def)
  have "sent stale_world = []" "stored_hash ''b.md'' stale_world = Some ''sha:old''"
    by (simp_all add: stale_world_def stored_hash_def)
  then show ?thesis
    using a no_chunks_no_writes [OF a, of stale_world]
    by (simp add: tables_def stored_hash_def)
qed

section \<open>Failures of the database\<close>

lemma index_files_foldl:
  "index_files L fs w = (Inr (), foldl (\<lambda>w f. snd (index_file L f w)) w fs)"
  by (induction fs arbitrary: w)
    (simp_all add: index_files_step io_return_def del: index_files.simps(2))

text \<open>
  C3, as the code has it. \<^verbatim>\<open>index_file\<close> catches every exception, so it returns
  normally whatever fails for its document, and so does \<^verbatim>\<open>insert_chunks\<close> for its
  chunks; once connected, \<^verbatim>\<open>index_all_files\<close> therefore runs \<^verbatim>\<open>index_file\<close> on
  every file of the list and returns normally. Only a failure to connect reaches the
  caller of \<^verbatim>\<open>index_all_files\<close>. \<^verbatim>\<open>search_similar\<close> has no handler: a failure
  to connect or a failure of its query reaches its caller.
\<close>

theorem store_failures_are_contained:
  "fst (index_file L f w) = Inr ()
   \<and> fst (insert_chunks i cs w) = Inr ()
   \<and> (\<forall>w'. db_roundtrip w = (Inr (), w') \<longrightarrow>
        index_all_files L files w = (Inr (), foldl (\<lambda>w f. snd (index_file L f w)) w' files))
   \<and> (\<forall>e. fst (db_roundtrip w) = Inl e \<longrightarrow>
        fst (index_all_files L files w) = Inl e \<and> fst (search_similar q k w) = Inl e)
   \<and> (\<forall>e v w1 w2. db_roundtrip w = (Inr (), w1) \<and> get_embedding q w1 = (Inr v, w2)
         \<and> fst (db_roundtrip w2) = Inl e \<longrightarrow> fst (search_similar q k w) = Inl e)"
proof -
  have a: "fst (index_file L f w) = Inr ()"
    by (simp add: index_file_eq)
  have b: "fst (insert_chunks i cs w) = Inr ()"
    by (rule insert_chunks_returns)
  have c: "\<forall>w'. db_roundtrip w = (Inr (), w') \<longrightarrow>
        index_all_files L files w = (Inr (), foldl (\<lambda>w f. snd (index_file L f w)) w' files)"
    by (simp add: index_all_files_def io_bind_def index_files_foldl)
  have d: "\<forall>e. fst (db_roundtrip w) = Inl e \<longrightarrow>
        fst (index_all_files L files w) = Inl e \<and> fst (search_similar q k w) = Inl e"
    by (cases "db_roundtrip w") (simp add: index_all_files_def search_similar_def io_bind_def)
  have e: "\<forall>e v w1 w2. db_roundtrip w = (Inr (), w1) \<and> get_embedding q w1 = (Inr v, w2)
         \<and> fst (db_roundtrip w2) = Inl e \<longrightarrow> fst (search_similar q k w) = Inl e"
  proof (intro allI impI)
    fix e v w1 w2
    assume h: "db_roundtrip w = (Inr (), w1) \<and> get_embedding q w1 = (Inr v, w2)
         \<and> fst (db_roundtrip w2) = Inl e"
    then show "fst (search_similar q k w) = Inl e"
      by (cases "db_roundtrip w2")
        (simp add: search_similar_def select_nearest_def io_bind_def)
  qed
  from a b c d e show ?thesis by blast
qed

lemma strip_world: "strip ''world'' = ''world''"
  by (simp add: strip_def isspace_def)

lemma flaky_pass_docs:
  "map sd_file_path (docs (snd (index_all_files demo_libs [note_a, note_c] flaky_world)))
     = [''sub/c.md'']"
  by (simp add: index_all_files_def flaky_world_def fresh_world_def io_bind_def db_roundtrip_def
      index_file_eq index_file_body_def io_lift_def calculate_file_hash_def
      note_a_def note_c_def demo_libs_def check_file_needs_update_def select_file_hash_def
      process_markdown_file_def read_text_def strip_world enumerate_eq_zip io_return_def
      update_source_document_def select_id_def insert_document_def db_send_def
      insert_chunks_docs index_files_step del: index_files.simps(2) insert_chunks.simps)

text \<open>
  The claim as stated fails: the check of the first file fails in the database, the
  pass still returns normally and has indexed the second file.
\<close>

theorem store_failure_counterexample:
  "faults flaky_world = [False, True]
   \<and> fst (check_file_needs_update note_a ''sha:hello'' (snd (db_roundtrip flaky_world)))
       = Inl PostgresError
   \<and> fst (index_all_files demo_libs [note_a, note_c] flaky_world) = Inr ()
   \<and> map sd_file_path (docs (snd (index_all_files demo_libs [note_a, note_c] flaky_world)))
       = [''sub/c.md'']"
proof -
  have a: "faults flaky_world = [False, True]"
    by (simp add: flaky_world_def)
  have b: "fst (check_file_needs_update note_a ''sha:hello'' (snd (db_roundtrip flaky_world)))
       = Inl PostgresError"
    by (simp add: flaky_world_def fresh_world_def db_roundtrip_def check_file_needs_update_def
        select_file_hash_def io_bind_def)
  have c: "fst (index_all_files demo_libs [note_a, note_c] flaky_world) = Inr ()"
    by (simp add: index_all_files_def flaky_world_def db_roundtrip_def io_bind_def
        index_files_returns del: index_files.simps)
  from a b c flaky_pass_docs show ?thesis by blast
qed

theorem store_failures_are_contained_witness:
  "fst (index_file demo_libs note_a (snd (db_roundtrip flaky_world))) = Inr ()
   \<and> fst (index_all_files demo_libs [note_a, note_c] flaky_world) = Inr ()
   \<and> fst (index_all_files demo_libs [note_a, note_c] (fresh_world\<lparr>faults := [True]\<rparr>))
       = Inl PostgresError
   \<and> fst (search_similar ''hello'' 3 (fresh_world\<lparr>faults := [True]\<rparr>)) = Inl PostgresError
   \<and> fst (search_similar ''hello'' 3 flaky_world) = Inl PostgresError"
proof -
  let ?down = "fresh_world\<lparr>faults := [True]\<rparr>"
  have c1: "db_roundtrip flaky_world = (Inr (), fresh_world\<lparr>faults := [True]\<rparr>)"
    by (simp add: flaky_world_def db_roundtrip_def)
  have c2: "fst (db_roundtrip ?down) = Inl PostgresError"
    by (simp add: db_roundtrip_def)
  have c3: "get_embedding ''hello'' ?down = (Inr [Finite 3, Finite 4], ?down\<lparr>replies := []\<rparr>)"
    by (simp add: get_embedding_def fresh_world_def)
  have c4: "fst (db_roundtrip (?down\<lparr>replies := []\<rparr>)) = Inl PostgresError"
    by (simp add: db_roundtrip_def)
  note t1 = store_failures_are_contained
    [of demo_libs note_a "snd (db_roundtrip flaky_world)" 0 "[]" "[note_a, note_c]" "''hello''" 3]
  note t2 = store_failures_are_contained
    [of demo_libs note_a flaky_world 0 "[]" "[note_a, note_c]" "''hello''" 3]
  note t3 = store_failures_are_contained
    [of demo_libs note_a ?down 0 "[]" "[note_a, note_c]" "''hello''" 3]
  have w1: "fst (index_file demo_libs note_a (snd (db_roundtrip flaky_world))) = Inr ()"
    using t1 by blast
  have w2: "fst (index_all_files demo_libs [note_a, note_c] flaky_world) = Inr ()"
    using t2 c1 by simp
  have w3: "fst (index_all_files demo_libs [note_a, note_c] ?down) = Inl PostgresError
      \<and> fst (search_similar ''hello'' 3 ?down) = Inl PostgresError"
    using t3 c2 by blast
  have w4: "fst (search_similar ''hello'' 3 flaky_world) = Inl PostgresError"
    using t2 c1 c3 c4 by blast
  from w1 w2 w3 w4 show ?thesis by blast
qed

section \<open>The upsert and the replacement of chunks\<close>

lemma embed_and_insert_cases:
  obtains (skipped) "chunks (snd (embed_and_insert i c w)) = chunks w"
      "chunk_seq (snd (embed_and_insert i c w)) = chunk_seq w"
  | (inserted) v where
      "chunks (snd (embed_and_insert i c w)) =
         chunks w @ [\<lparr>dc_id = chunk_seq w, dc_source_id = i, dc_chunk_text = pc_text c,
                      dc_embedding = v, dc_metadata = pc_metadata c\<rparr>]"
      "chunk_seq (snd (embed_and_insert i c w)) = Suc (chunk_seq w)"
proof (cases "fst (embed_and_insert i c w)")
  case (Inl e)
  then have "chunks (snd (embed_and_insert i c w)) = chunks w
      \<and> chunk_seq (snd (embed_and_insert i c w)) = chunk_seq w"
    by (auto simp: embed_and_insert_def get_embedding_def insert_chunk_def db_send_def
        db_roundtrip_def io_bind_def split: list.splits reply.splits option.splits if_splits)
  then show ?thesis using skipped by blast
next
  case (Inr u)
  then have "\<exists>v. chunks (snd (embed_and_insert i c w)) =
         chunks w @ [\<lparr>dc_id = chunk_seq w, dc_source_id = i, dc_chunk_text = pc_text c,
                      dc_embedding = v, dc_metadata = pc_metadata c\<rparr>]
      \<and> chunk_seq (snd (embed_and_insert i c w)) = Suc (chunk_seq w)"
    by (auto simp: embed_and_insert_def get_embedding_def insert_chunk_def db_send_def
        db_roundtrip_def io_bind_def split: list.splits reply.splits option.splits if_splits)
  then show ?thesis using inserted by blast
qed

lemma insert_chunks_step:
  "insert_chunks i (c # cs) w = insert_chunks i cs (snd (embed_and_insert i c w))"
  by (simp add: io_bind_def io_catch_eq)

lemma insert_chunks_appends:
  "\<exists>new. chunks (snd (insert_chunks i cs w)) = chunks w @ new
     \<and> chunk_seq w \<le> chunk_seq (snd (insert_chunks i cs w))
     \<and> (\<forall>c \<in> set new. dc_source_id c = i \<and> chunk_seq w \<le> dc_id c)
     \<and> subseq (map dc_metadata new) (map pc_metadata cs)"
proof (induction cs arbitrary: w)
  case Nil
  then show ?case by (simp add: io_return_def)
next
  case (Cons c cs)
  let ?w1 = "snd (embed_and_insert i c w)"
  from Cons.IH [of ?w1] obtain new where
    new: "chunks (snd (insert_chunks i cs ?w1)) = chunks ?w1 @ new"
      "chunk_seq ?w1 \<le> chunk_seq (snd (insert_chunks i cs ?w1))"
      "\<forall>c \<in> set new. dc_source_id c = i \<and> chunk_seq ?w1 \<le> dc_id c"
      "subseq (map dc_metadata new) (map pc_metadata cs)"
    by blast
  show ?case
  proof (cases i c w rule: embed_and_insert_cases)
    case skipped
    with new have "chunks (snd (insert_chunks i (c # cs) w)) = chunks w @ new
       \<and> chunk_seq w \<le> chunk_seq (snd (insert_chunks i (c # cs) w))
       \<and> (\<forall>c \<in> set new. dc_source_id c = i \<and> chunk_seq w \<le> dc_id c)
       \<and> subseq (map dc_metadata new) (map pc_metadata (c # cs))"
      by (simp add: insert_chunks_step list_emb_Cons del: insert_chunks.simps(2))
    then show ?thesis by blast
  next
    case (inserted v)
    let ?row = "\<lparr>dc_id = chunk_seq w, dc_source_id = i, dc_chunk_text = pc_text c,
                      dc_embedding = v, dc_metadata = pc_metadata c\<rparr>"
    from inserted new have "chunks (snd (insert_chunks i (c # cs) w)) = chunks w @ (?row # new)
       \<and> chunk_seq w \<le> chunk_seq (snd (insert_chunks i (c # cs) w))
       \<and> (\<forall>c \<in> set (?row # new). dc_source_id c = i \<and> chunk_seq w \<le> dc_id c)
       \<and> subseq (map dc_metadata (?row # new)) (map pc_metadata (c # cs))"
      by (auto simp add: insert_chunks_step simp del: insert_chunks.simps(2))
    then show ?thesis by blast
  qed
qed


lemma update_source_document_effect:
  assumes "update_source_document f h w = (Inr i, w')"
  shows "case find (\<lambda>r. sd_file_path r = f_rel f) (docs w) of
           None \<Rightarrow>
             i = doc_seq w
             \<and> docs w' = docs w @ [\<lparr>sd_id = i, sd_file_path = f_rel f, sd_file_hash = h,
                                    sd_last_indexed_at = None\<rparr>]
             \<and> chunks w' = chunks w \<and> chunk_seq w' = chunk_seq w
         | Some r \<Rightarrow>
             i = sd_id r
             \<and> docs w' = map (\<lambda>r. if sd_file_path r = f_rel f
                                   then r\<lparr>sd_file_hash := h, sd_last_indexed_at := Some (now w)\<rparr>
                                   else r) (docs w)
             \<and> chunks w' = filter (\<lambda>c. dc_source_id c \<noteq> i) (chunks w)
             \<and> chunk_seq w' = chunk_seq w"
  using assms
  by (auto simp: update_source_document_def select_id_def update_document_def
      delete_chunks_def insert_document_def db_send_def db_roundtrip_def io_bind_def io_return_def
      split: list.splits option.splits if_splits)

text \<open>
  C5. \<^verbatim>\<open>update_source_document\<close> returns when no round trip fails. When it returns
  and no row has the path, it has appended a row with the path, the fingerprint and a
  new id, and has left the chunks alone; when a row has the path, it has set the
  fingerprint and the timestamp of that path and has deleted every chunk whose
  \<^verbatim>\<open>source_id\<close> is the id it returns. After \<^verbatim>\<open>index_file\<close> has reindexed a changed
  document without a failing round trip, the chunks of that document are new rows only:
  none of its earlier chunk rows is left.
\<close>

theorem update_source_document_upsert:
  "(no_faults w \<longrightarrow> (\<exists>i w'. update_source_document f h w = (Inr i, w')))
   \<and> (\<forall>i w'. update_source_document f h w = (Inr i, w') \<longrightarrow>
        (if \<forall>r \<in> set (docs w). sd_file_path r \<noteq> f_rel f
         then i = doc_seq w
              \<and> docs w' = docs w @ [\<lparr>sd_id = i, sd_file_path = f_rel f, sd_file_hash = h,
                                     sd_last_indexed_at = None\<rparr>]
              \<and> chunks w' = chunks w
         else (\<exists>r. find (\<lambda>r. sd_file_path r = f_rel f) (docs w) = Some r \<and> i = sd_id r)
              \<and> docs w' = map (\<lambda>r. if sd_file_path r = f_rel f
                                    then r\<lparr>sd_file_hash := h, sd_last_indexed_at := Some (now w)\<rparr>
                                    else r) (docs w)
              \<and> chunks w' = filter (\<lambda>c. dc_source_id c \<noteq> i) (chunks w)
              \<and> (\<forall>c \<in> set (chunks w'). dc_source_id c \<noteq> i)))
   \<and> (\<forall>r. no_faults w \<and> \<not> settled L f w
          \<and> find (\<lambda>r. sd_file_path r = f_rel f) (docs w) = Some r \<longrightarrow>
        (\<exists>new. chunks (snd (index_file L f w))
                  = filter (\<lambda>c. dc_source_id c \<noteq> sd_id r) (chunks w) @ new
           \<and> (\<forall>c \<in> set new. dc_source_id c = sd_id r \<and> chunk_seq w \<le> dc_id c)))"
proof (intro conjI allI impI)
  assume "no_faults w"
  then show "\<exists>i w'. update_source_document f h w = (Inr i, w')"
    using update_source_document_no_faults [of w f h] by blast
next
  fix i w'
  assume ret: "update_source_document f h w = (Inr i, w')"
  show "if \<forall>r \<in> set (docs w). sd_file_path r \<noteq> f_rel f
         then i = doc_seq w
              \<and> docs w' = docs w @ [\<lparr>sd_id = i, sd_file_path = f_rel f, sd_file_hash = h,
                                     sd_last_indexed_at = None\<rparr>]
              \<and> chunks w' = chunks w
         else (\<exists>r. find (\<lambda>r. sd_file_path r = f_rel f) (docs w) = Some r \<and> i = sd_id r)
              \<and> docs w' = map (\<lambda>r. if sd_file_path r = f_rel f
                                    then r\<lparr>sd_file_hash := h, sd_last_indexed_at := Some (now w)\<rparr>
                                    else r) (docs w)
              \<and> chunks w' = filter (\<lambda>c. dc_source_id c \<noteq> i) (chunks w)
              \<and> (\<forall>c \<in> set (chunks w'). dc_source_id c \<noteq> i)"
  proof (cases "find (\<lambda>r. sd_file_path r = f_rel f) (docs w)")
    case None
    then have "\<forall>r \<in> set (docs w). sd_file_path r \<noteq> f_rel f"
      by (simp add: find_None_path)
    then show ?thesis
      using update_source_document_effect [OF ret] None by simp
  next
    case (Some r)
    then have "\<not> (\<forall>r \<in> set (docs w). sd_file_path r \<noteq> f_rel f)"
      using find_None_path [of "f_rel f" "docs w"] by simp
    then show ?thesis
      using update_source_document_effect [OF ret] Some by simp
  qed
next
  fix r
  assume a: "no_faults w \<and> \<not> settled L f w
          \<and> find (\<lambda>r. sd_file_path r = f_rel f) (docs w) = Some r"
  then obtain hh cs where hh: "calculate_file_hash L f = Inr hh"
    and old: "stored_hash (f_rel f) w \<noteq> Some hh"
    and cs: "process_markdown_file L f = Inr cs" "cs \<noteq> []"
    by (auto simp: settled_def split: sum.splits)
  from a obtain fs where chk: "check_file_needs_update f hh w = (Inr True, w\<lparr>faults := fs\<rparr>)"
    and nf1: "no_faults (w\<lparr>faults := fs\<rparr>)"
    using old by (cases f hh w rule: check_cases) auto
  from update_source_document_no_faults [OF nf1, of f hh]
  obtain i w2 where ups: "update_source_document f hh (w\<lparr>faults := fs\<rparr>) = (Inr i, w2)"
    by blast
  have eff: "i = sd_id r" "chunks w2 = filter (\<lambda>c. dc_source_id c \<noteq> i) (chunks w)"
    "chunk_seq w2 = chunk_seq w"
    using update_source_document_effect [OF ups] a by simp_all
  have run: "snd (index_file L f w) = snd (insert_chunks i cs w2)"
    using hh chk cs ups by (simp add: index_file_eq index_file_body_def io_bind_def io_lift_def)
  from insert_chunks_appends [of i cs w2] obtain new where
    "chunks (snd (insert_chunks i cs w2)) = chunks w2 @ new"
    "\<forall>c \<in> set new. dc_source_id c = i \<and> chunk_seq w2 \<le> dc_id c"
    by blast
  then have "chunks (snd (index_file L f w))
                  = filter (\<lambda>c. dc_source_id c \<noteq> sd_id r) (chunks w) @ new
           \<and> (\<forall>c \<in> set new. dc_source_id c = sd_id r \<and> chunk_seq w \<le> dc_id c)"
    using run eff by simp
  then show "\<exists>new. chunks (snd (index_file L f w))
                  = filter (\<lambda>c. dc_source_id c \<noteq> sd_id r) (chunks w) @ new
           \<and> (\<forall>c \<in> set new. dc_source_id c = sd_id r \<and> chunk_seq w \<le> dc_id c)"
    by blast
qed


lemma process_note_b:
  "process_markdown_file demo_libs note_b =
     Inr [\<lparr>pc_text = ''new'',
           pc_metadata = \<lparr>md_file_name = ''b.md'', md_chunk_index = 0, md_headers = [],
                          md_file_path = ''b.md''\<rparr>\<rparr>]"
  by (simp add: process_markdown_file_def read_text_def demo_libs_def note_b_def
      enumerate_eq_zip strip_def isspace_def)

theorem update_source_document_upsert_witness:
  "no_faults stale_world
   \<and> update_source_document note_b ''sha:new'' stale_world =
       (Inr 1, stale_world\<lparr>docs := [\<lparr>sd_id = 1, sd_file_path = ''b.md'',
                                       sd_file_hash = ''sha:new'', sd_last_indexed_at = Some 7\<rparr>],
                             chunks := [],
                             sent := [UpdateDocument ''sha:new'' ''b.md'', DeleteChunks 1]\<rparr>)
   \<and> \<not> settled demo_libs note_b stale_world
   \<and> chunks stale_world \<noteq> []
   \<and> hd (chunks stale_world) \<notin> set (chunks (snd (index_file demo_libs note_b stale_world)))"
proof -
  let ?row = "\<lparr>sd_id = 1, sd_file_path = ''b.md'', sd_file_hash = ''sha:old'',
               sd_last_indexed_at = Some 3\<rparr>"
  have nf: "no_faults stale_world"
    by (simp add: no_faults_def stale_world_def)
  have ev: "update_source_document note_b ''sha:new'' stale_world =
       (Inr 1, stale_world\<lparr>docs := [\<lparr>sd_id = 1, sd_file_path = ''b.md'',
                                       sd_file_hash = ''sha:new'', sd_last_indexed_at = Some 7\<rparr>],
                             chunks := [],
                             sent := [UpdateDocument ''sha:new'' ''b.md'', DeleteChunks 1]\<rparr>)"
    by (simp add: update_source_document_def select_id_def update_document_def
        delete_chunks_def db_send_def db_roundtrip_def io_bind_def io_return_def
        stale_world_def note_b_def)
  have h: "calculate_file_hash demo_libs note_b = Inr ''sha:new''"
    by (simp add: calculate_file_hash_def demo_libs_def note_b_def)
  have sh: "stored_hash (f_rel note_b) stale_world = Some ''sha:old''"
    by (simp add: stored_hash_def stale_world_def note_b_def)
  have ns: "\<not> settled demo_libs note_b stale_world"
    unfolding settled_def h by (simp add: sh process_note_b)
  have fr: "find (\<lambda>r. sd_file_path r = f_rel note_b) (docs stale_world) = Some ?row"
    by (simp add: stale_world_def note_b_def)
  from update_source_document_upsert [of stale_world note_b "''sha:new''" demo_libs] nf ns fr
  obtain new where new:
    "chunks (snd (index_file demo_libs note_b stale_world))
       = filter (\<lambda>c. dc_source_id c \<noteq> sd_id ?row) (chunks stale_world) @ new"
    "\<forall>c \<in> set new. dc_source_id c = sd_id ?row \<and> chunk_seq stale_world \<le> dc_id c"
    by blast
  have old: "chunks stale_world \<noteq> []" "dc_source_id (hd (chunks stale_world)) = 1"
    "dc_id (hd (chunks stale_world)) = 1" "chunk_seq stale_world = 2"
    by (simp_all add: stale_world_def)
  have "hd (chunks stale_world) \<notin> set new"
    using new(2) old by auto
  then have "hd (chunks stale_world) \<notin> set (chunks (snd (index_file demo_libs note_b stale_world)))"
    using new(1) old by simp
  with nf ev ns old(1) show ?thesis by blast
qed

section \<open>Evaluating float64 arithmetic\<close>

lemma pow2_powr: "pow2 e = 2 powr (of_int e)"
  by (simp add: pow2_def powr_int)

lemma f64_round_at:
  assumes "x \<noteq> 0" and "pow2 k \<le> \<bar>x\<bar>" and "\<bar>x\<bar> < pow2 (k + 1)"
  shows "f64_round x =
     (let e = max (k - 52) (- 1074);
          y = of_int (round_half_even (x / pow2 e)) * pow2 e
      in if 2 ^ 1024 \<le> \<bar>y\<bar> then (if 0 < x then PosInf else NegInf) else Finite y)"
proof -
  have "\<lfloor>log 2 \<bar>x\<bar>\<rfloor> = k"
    using assms by (subst floor_log_eq_powr_iff) (simp_all add: pow2_powr)
  then show ?thesis
    using assms(1) by (simp add: f64_round_def)
qed

lemma f64_round_5: "f64_round 5 = Finite 5"
  by (subst f64_round_at [where k = 2]) (simp_all add: pow2_def round_half_even_def)

lemma f64_round_9: "f64_round 9 = Finite 9"
  by (subst f64_round_at [where k = 3]) (simp_all add: pow2_def round_half_even_def)

lemma f64_round_16: "f64_round 16 = Finite 16"
  by (subst f64_round_at [where k = 4]) (simp_all add: pow2_def round_half_even_def)

lemma f64_round_25: "f64_round 25 = Finite 25"
  by (subst f64_round_at [where k = 4]) (simp_all add: pow2_def round_half_even_def)

lemma f64_round_3_5: "f64_round (3 / 5) = Finite (5404319552844595 / 2 ^ 53)"
  by (subst f64_round_at [where k = "- 1"]) (simp_all add: pow2_def round_half_even_def Let_def)

lemma f64_round_4_5: "f64_round (4 / 5) = Finite (7205759403792794 / 2 ^ 53)"
  by (subst f64_round_at [where k = "- 1"]) (simp_all add: pow2_def round_half_even_def Let_def)

lemma sqrt25: "sqrt 25 = 5"
proof -
  have "sqrt ((5::real)\<^sup>2) = 5" by (simp only: real_sqrt_abs abs_numeral)
  then show ?thesis by simp
qed

lemma linalg_norm_34: "linalg_norm [Finite 3, Finite 4] = Finite 5"
  by (simp add: linalg_norm_def f64_round_9 f64_round_16 f64_round_25 sqrt25 f64_round_5)

lemma normalize_34:
  "normalize [Finite 3, Finite 4]
     = [Finite (5404319552844595 / 2 ^ 53), Finite (7205759403792794 / 2 ^ 53)]"
  by (simp add: normalize_def linalg_norm_34 f64_round_3_5 f64_round_4_5)

lemma vec_str_34: "vec_str (normalize [Finite 3, Finite 4]) = [Finite (3 / 5), Finite (4 / 5)]"
  by (simp add: normalize_34 vec_str_def fmt8_def round_half_even_def Let_def)

lemma vector_in_34: "vector_in (vec_str (normalize [Finite 3, Finite 4])) = Some [3 / 5, 4 / 5]"
  by (simp add: vec_str_34 vector_in_def)

section \<open>The chunk index\<close>

lemma collect_chunks_indices:
  "map (md_chunk_index \<circ> pc_metadata) (collect_chunks f ps)
     = map fst (filter (\<lambda>(i, s). strip (page_content s) \<noteq> []) ps)"
  by (induction ps) (auto simp: Let_def)

lemma collect_chunks_all:
  "\<forall>(i, s) \<in> set ps. strip (page_content s) \<noteq> [] \<Longrightarrow>
   map (md_chunk_index \<circ> pc_metadata) (collect_chunks f ps) = map fst ps"
  by (induction ps) (auto simp: Let_def)

lemma map_fst_enumerate: "map fst (enumerate n xs) = [n..<n + length xs]"
  by (simp add: enumerate_eq_zip)

text \<open>
  C9, as the code has it. The \<^verbatim>\<open>chunk_index\<close> of a chunk is the position of its
  segment in the output of the splitter, blank segments counted; the chunk rows that
  \<^verbatim>\<open>insert_chunks\<close> adds carry the indices of a subsequence of the chunks, in order,
  because a chunk whose embedding or insert fails is left out. The indices of the added
  rows are \<open>0, ..., n - 1\<close> when no segment is blank and every chunk is added.
\<close>

theorem chunk_index_is_segment_position:
  assumes "read_text L f = Inr content" and "strip content \<noteq> []"
  shows "\<exists>cs. process_markdown_file L f = Inr cs
     \<and> map (md_chunk_index \<circ> pc_metadata) cs
         = map fst (filter (\<lambda>(i, s). strip (page_content s) \<noteq> [])
                      (enumerate 0 (split_text L content)))
     \<and> (\<exists>new. chunks (snd (insert_chunks i cs w)) = chunks w @ new
          \<and> subseq (map (md_chunk_index \<circ> dc_metadata) new)
                   (map (md_chunk_index \<circ> pc_metadata) cs)
          \<and> ((\<forall>s \<in> set (split_text L content). strip (page_content s) \<noteq> [])
               \<and> length new = length cs
               \<longrightarrow> map (md_chunk_index \<circ> dc_metadata) new = [0..<length new]))"
proof -
  let ?segs = "split_text L content"
  let ?cs = "collect_chunks f (enumerate 0 ?segs)"
  have p: "process_markdown_file L f = Inr ?cs"
    using assms by (simp add: process_markdown_file_def)
  have idx: "map (md_chunk_index \<circ> pc_metadata) ?cs
         = map fst (filter (\<lambda>(i, s). strip (page_content s) \<noteq> []) (enumerate 0 ?segs))"
    by (rule collect_chunks_indices)
  from insert_chunks_appends [of i ?cs w] obtain new where
    new: "chunks (snd (insert_chunks i ?cs w)) = chunks w @ new"
      "subseq (map dc_metadata new) (map pc_metadata ?cs)"
    by blast
  have sub: "subseq (map (md_chunk_index \<circ> dc_metadata) new)
                   (map (md_chunk_index \<circ> pc_metadata) ?cs)"
    using subseq_map [OF new(2), of md_chunk_index] by (simp add: comp_def)
  have full: "map (md_chunk_index \<circ> dc_metadata) new = [0..<length new]"
    if nb: "\<forall>s \<in> set ?segs. strip (page_content s) \<noteq> []" and len: "length new = length ?cs"
  proof -
    have "map dc_metadata new = map pc_metadata ?cs"
      using new(2) len by (intro subseq_same_length) simp_all
    then have "map (md_chunk_index \<circ> dc_metadata) new = map (md_chunk_index \<circ> pc_metadata) ?cs"
      by (metis map_map)
    also have "\<dots> = map fst (enumerate 0 ?segs)"
      using nb by (intro collect_chunks_all) (auto simp: enumerate_eq_zip dest: set_zip_rightD)
    also have "\<dots> = [0..<length ?segs]"
      by (simp add: map_fst_enumerate)
    finally have e: "map (md_chunk_index \<circ> dc_metadata) new = [0..<length ?segs]" .
    then have "length new = length ?segs"
      by (metis length_map length_upt minus_nat.diff_0)
    with e show ?thesis by simp
  qed
  from p idx new(1) sub full show ?thesis by blast
qed

text \<open>
  The claim as stated fails: the splitter gives two segments, the embedding of the first
  fails, and the one chunk row that is stored carries the index 1, not 0.
\<close>

theorem chunk_index_counterexample:
  "map (md_chunk_index \<circ> pc_metadata)
       (projr (process_markdown_file two_libs note_a)) = [0, 1]
   \<and> map (md_chunk_index \<circ> dc_metadata)
       (chunks (snd (index_file two_libs note_a first_embedding_fails_world))) = [1]"
proof -
  have p: "process_markdown_file two_libs note_a =
     Inr [\<lparr>pc_text = ''hello'',
           pc_metadata = \<lparr>md_file_name = ''a.md'', md_chunk_index = 0,
                          md_headers = [(''Header 1'', ''A'')], md_file_path = ''a.md''\<rparr>\<rparr>,
          \<lparr>pc_text = ''world'',
           pc_metadata = \<lparr>md_file_name = ''a.md'', md_chunk_index = 1,
                          md_headers = [(''Header 1'', ''A''), (''Header 2'', ''B'')],
                          md_file_path = ''a.md''\<rparr>\<rparr>]"
    by (simp add: process_markdown_file_def read_text_def two_libs_def note_a_def
        enumerate_eq_zip strip_def isspace_def)
  have h: "calculate_file_hash two_libs note_a = Inr ''sha:hello''"
    by (simp add: calculate_file_hash_def two_libs_def note_a_def)
  have r: "f_rel note_a = ''a.md''"
    by (simp add: note_a_def)
  have "chunks (snd (index_file two_libs note_a first_embedding_fails_world)) =
      [\<lparr>dc_id = 1, dc_source_id = 1, dc_chunk_text = ''world'', dc_embedding = [3 / 5, 4 / 5],
        dc_metadata = \<lparr>md_file_name = ''a.md'', md_chunk_index = 1,
                       md_headers = [(''Header 1'', ''A''), (''Header 2'', ''B'')],
                       md_file_path = ''a.md''\<rparr>\<rparr>]"
    by (simp add: index_file_eq index_file_body_def p h io_bind_def io_lift_def
        check_file_needs_update_def select_file_hash_def db_roundtrip_def io_return_def
        first_embedding_fails_world_def fresh_world_def r
        update_source_document_def select_id_def insert_document_def db_send_def
        io_catch_def embed_and_insert_def get_embedding_def insert_chunk_def vector_in_34)
  with p show ?thesis by simp
qed


theorem chunk_index_is_segment_position_witness:
  "read_text two_libs note_a = Inr ''hello'' \<and> strip ''hello'' \<noteq> []
   \<and> (\<exists>cs. process_markdown_file two_libs note_a = Inr cs
          \<and> map (md_chunk_index \<circ> pc_metadata) cs = [0, 1])"
proof -
  have a: "read_text two_libs note_a = Inr ''hello''"
    by (simp add: read_text_def two_libs_def note_a_def)
  have b: "strip ''hello'' \<noteq> []"
    by (simp add: strip_hello)
  have seg: "map fst (filter (\<lambda>(i, s). strip (page_content s) \<noteq> [])
                      (enumerate 0 (split_text two_libs ''hello''))) = [0, 1]"
    by (simp add: two_libs_def enumerate_eq_zip strip_def isspace_def)
  from chunk_index_is_segment_position [OF a b, of 1 fresh_world]
  obtain cs where "process_markdown_file two_libs note_a = Inr cs"
    "map (md_chunk_index \<circ> pc_metadata) cs
         = map fst (filter (\<lambda>(i, s). strip (page_content s) \<noteq> [])
                      (enumerate 0 (split_text two_libs ''hello'')))"
    by blast
  with seg a b show ?thesis by auto
qed

section \<open>The nearest chunks\<close>

lemma sorted_take_sort_key: "sorted (map k (take n (sort_key k xs)))"
proof -
  have "sorted (take n (map k (sort_key k xs)))"
    by (intro sorted_wrt_take sorted_sort_key)
  then show ?thesis by (simp add: take_map)
qed

lemma joined_rows:
  "row \<in> set (joined w) \<Longrightarrow>
   fst row \<in> set (chunks w) \<and> snd row \<in> set (docs w) \<and> dc_source_id (fst row) = sd_id (snd row)"
  by (auto simp: joined_def)

lemma joined_empty: "chunks w = [] \<Longrightarrow> joined w = []"
  by (simp add: joined_def)

lemma search_similar_returns:
  assumes "search_similar query limit w = (Inr hits, w')"
  obtains r rs v q where "replies w = r # rs" "r query = Embedding v"
    "vector_in (vec_str (normalize v)) = Some q" "0 \<le> limit"
    "hits = map (select_row q) (take (nat limit) (sort_key (distance_to q) (joined w)))"
proof -
  from assms obtain w1 where c: "db_roundtrip w = (Inr (), w1)"
    by (cases "db_roundtrip w") (auto simp: search_similar_def io_bind_def split: sum.splits)
  then have d1: "docs w1 = docs w" "chunks w1 = chunks w" "replies w1 = replies w"
    by (auto simp: db_roundtrip_def split: list.splits if_splits)
  from assms c obtain v w2 where g: "get_embedding query w1 = (Inr v, w2)"
    by (cases "get_embedding query w1") (auto simp: search_similar_def io_bind_def split: sum.splits)
  then obtain r rs where r: "replies w1 = r # rs" "r query = Embedding v"
    and d2: "docs w2 = docs w1" "chunks w2 = chunks w1"
    by (auto simp: get_embedding_def split: list.splits reply.splits)
  from assms c g have s: "select_nearest (vec_str (normalize v)) limit w2 = (Inr hits, w')"
    by (simp add: search_similar_def io_bind_def)
  then obtain w3 where c3: "db_roundtrip w2 = (Inr (), w3)"
    by (cases "db_roundtrip w2") (auto simp: select_nearest_def io_bind_def split: sum.splits)
  then have d3: "docs w3 = docs w2" "chunks w3 = chunks w2"
    by (auto simp: db_roundtrip_def split: list.splits if_splits)
  have j: "joined w3 = joined w"
    using d1 d2 d3 by (simp add: joined_def)
  from s c3 obtain q where q: "vector_in (vec_str (normalize v)) = Some q" "0 \<le> limit"
    "hits = map (select_row q) (take (nat limit) (sort_key (distance_to q) (joined w3)))"
    by (auto simp: select_nearest_def io_bind_def split: option.splits if_splits)
  show ?thesis
    using that [of r rs v q] r d1 q j by simp
qed


lemma top_of_sorted:
  assumes "x \<in> set xs"
  shows "x \<in> set (take n (sort_key k xs)) \<or> (\<forall>y \<in> set (take n (sort_key k xs)). k y \<le> k x)"
proof -
  let ?s = "sort_key k xs"
  have "sorted (map k (take n ?s @ drop n ?s))"
    by simp
  then have le: "\<forall>a \<in> set (take n ?s). \<forall>b \<in> set (drop n ?s). k a \<le> k b"
    by (simp only: map_append sorted_append) auto
  have "x \<in> set (take n ?s @ drop n ?s)"
    using assms by simp
  then have "x \<in> set (take n ?s) \<or> x \<in> set (drop n ?s)"
    by (simp only: set_append Un_iff)
  then show ?thesis using le by blast
qed

lemma search_similar_empty:
  assumes "no_faults w" and "replies w = r # rs" and "r query = Embedding v"
    and "vector_in (vec_str (normalize v)) = Some q" and "0 \<le> limit" and "chunks w = []"
  shows "fst (search_similar query limit w) = Inr []"
proof -
  from assms(1) obtain fs where c: "db_roundtrip w = (Inr (), w\<lparr>faults := fs\<rparr>)"
    and nf: "no_faults (w\<lparr>faults := fs\<rparr>)"
    by (cases w rule: roundtrip_cases) auto
  let ?w2 = "w\<lparr>faults := fs, replies := rs\<rparr>"
  have g: "get_embedding query (w\<lparr>faults := fs\<rparr>) = (Inr v, ?w2)"
    using assms(2,3) by (simp add: get_embedding_def)
  have "no_faults ?w2"
    using nf by (simp add: no_faults_def)
  then obtain fs' where c2: "db_roundtrip ?w2 = (Inr (), ?w2\<lparr>faults := fs'\<rparr>)"
    by (cases ?w2 rule: roundtrip_cases) auto
  have j: "joined (?w2\<lparr>faults := fs'\<rparr>) = []"
    using assms(6) by (simp add: joined_def)
  have "select_nearest (vec_str (normalize v)) limit ?w2 = (Inr [], ?w2\<lparr>faults := fs'\<rparr>)"
    using c2 assms(4,5) j by (simp add: select_nearest_def io_bind_def)
  then show ?thesis
    using c g by (simp add: search_similar_def io_bind_def)
qed

text \<open>
  C6. When \<^verbatim>\<open>search_similar\<close> returns, it returns at most \<open>limit\<close> results, in
  non-decreasing order of distance; every result is a stored chunk joined with the
  document that owns it, with the Euclidean distance between the chunk's embedding and
  the query vector; every joined row that is not returned is at least as far as every
  result; and the result is empty when no chunk is stored. With no chunk stored, the
  services up and a limit that is not negative, the call returns the empty list and not
  an error.
\<close>

theorem search_similar_nearest:
  "(\<forall>hits w'. search_similar query limit w = (Inr hits, w') \<longrightarrow>
      int (length hits) \<le> limit
      \<and> sorted (map hit_distance hits)
      \<and> (\<exists>v q. (\<exists>r rs. replies w = r # rs \<and> r query = Embedding v)
            \<and> vector_in (vec_str (normalize v)) = Some q
            \<and> (\<forall>h \<in> set hits. \<exists>dc \<in> set (chunks w). \<exists>sd \<in> set (docs w).
                  dc_source_id dc = sd_id sd
                  \<and> hit_text h = dc_chunk_text dc \<and> hit_metadata h = dc_metadata dc
                  \<and> hit_file_path h = sd_file_path sd
                  \<and> hit_distance h = l2_distance (dc_embedding dc) q)
            \<and> (\<forall>row \<in> set (joined w).
                  select_row q row \<in> set hits
                  \<or> (\<forall>h \<in> set hits. hit_distance h \<le> distance_to q row)))
      \<and> (chunks w = [] \<longrightarrow> hits = []))
   \<and> (\<forall>r rs v q. no_faults w \<and> replies w = r # rs \<and> r query = Embedding v
          \<and> vector_in (vec_str (normalize v)) = Some q \<and> 0 \<le> limit \<and> chunks w = []
        \<longrightarrow> fst (search_similar query limit w) = Inr [])"
proof (intro conjI allI impI)
  fix r rs v q
  assume "no_faults w \<and> replies w = r # rs \<and> r query = Embedding v
          \<and> vector_in (vec_str (normalize v)) = Some q \<and> 0 \<le> limit \<and> chunks w = []"
  then show "fst (search_similar query limit w) = Inr []"
    using search_similar_empty [of w r rs query v q limit] by blast
next
  fix hits w'
  assume ret: "search_similar query limit w = (Inr hits, w')"
  then obtain r rs v q where r: "replies w = r # rs" "r query = Embedding v"
    and q: "vector_in (vec_str (normalize v)) = Some q" and l: "0 \<le> limit"
    and hits: "hits = map (select_row q) (take (nat limit) (sort_key (distance_to q) (joined w)))"
    by (rule search_similar_returns)
  let ?top = "take (nat limit) (sort_key (distance_to q) (joined w))"
  show "int (length hits) \<le> limit"
    using l by (simp add: hits)
  have dist: "map hit_distance hits = map (distance_to q) ?top"
    by (simp add: hits select_row_def comp_def)
  show "sorted (map hit_distance hits)"
    unfolding dist by (rule sorted_take_sort_key)
  have rows: "\<forall>h \<in> set hits. \<exists>dc \<in> set (chunks w). \<exists>sd \<in> set (docs w).
                  dc_source_id dc = sd_id sd
                  \<and> hit_text h = dc_chunk_text dc \<and> hit_metadata h = dc_metadata dc
                  \<and> hit_file_path h = sd_file_path sd
                  \<and> hit_distance h = l2_distance (dc_embedding dc) q"
  proof
    fix h assume "h \<in> set hits"
    then obtain row where row: "row \<in> set ?top" "h = select_row q row"
      by (auto simp: hits)
    then have "row \<in> set (joined w)"
      by (meson in_set_takeD set_sort [THEN equalityD1, THEN subsetD])
    then have "fst row \<in> set (chunks w)" "snd row \<in> set (docs w)"
      "dc_source_id (fst row) = sd_id (snd row)"
      using joined_rows by blast+
    then show "\<exists>dc \<in> set (chunks w). \<exists>sd \<in> set (docs w).
                  dc_source_id dc = sd_id sd
                  \<and> hit_text h = dc_chunk_text dc \<and> hit_metadata h = dc_metadata dc
                  \<and> hit_file_path h = sd_file_path sd
                  \<and> hit_distance h = l2_distance (dc_embedding dc) q"
      using row(2) by (auto simp: select_row_def distance_to_def)
  qed
  have near: "\<forall>row \<in> set (joined w).
                  select_row q row \<in> set hits
                  \<or> (\<forall>h \<in> set hits. hit_distance h \<le> distance_to q row)"
  proof
    fix row assume "row \<in> set (joined w)"
    then have "row \<in> set ?top \<or> (\<forall>y \<in> set ?top. distance_to q y \<le> distance_to q row)"
      by (rule top_of_sorted)
    then show "select_row q row \<in> set hits
                  \<or> (\<forall>h \<in> set hits. hit_distance h \<le> distance_to q row)"
    proof
      assume "row \<in> set ?top"
      then show ?thesis by (simp add: hits)
    next
      assume far: "\<forall>y \<in> set ?top. distance_to q y \<le> distance_to q row"
      have "\<forall>h \<in> set hits. hit_distance h \<le> distance_to q row"
      proof
        fix h assume "h \<in> set hits"
        then obtain y where "y \<in> set ?top" "h = select_row q y"
          by (auto simp: hits)
        then show "hit_distance h \<le> distance_to q row"
          using far by (simp add: select_row_def)
      qed
      then show ?thesis by simp
    qed
  qed
  show "\<exists>v q. (\<exists>r rs. replies w = r # rs \<and> r query = Embedding v)
            \<and> vector_in (vec_str (normalize v)) = Some q
            \<and> (\<forall>h \<in> set hits. \<exists>dc \<in> set (chunks w). \<exists>sd \<in> set (docs w).
                  dc_source_id dc = sd_id sd
                  \<and> hit_text h = dc_chunk_text dc \<and> hit_metadata h = dc_metadata dc
                  \<and> hit_file_path h = sd_file_path sd
                  \<and> hit_distance h = l2_distance (dc_embedding dc) q)
            \<and> (\<forall>row \<in> set (joined w).
                  select_row q row \<in> set hits
                  \<or> (\<forall>h \<in> set hits. hit_distance h \<le> distance_to q row))"
    using r q rows near by blast
  show "hits = []" if "chunks w = []"
    using that by (simp add: hits joined_empty)
qed


lemma library_search:
  "search_similar ''hello'' 2 library_world =
     (Inr [\<lparr>hit_text = ''world'',
            hit_metadata = \<lparr>md_file_name = ''c.md'', md_chunk_index = 0, md_headers = [],
                            md_file_path = ''sub/c.md''\<rparr>,
            hit_file_path = ''sub/c.md'', hit_distance = 0\<rparr>,
           \<lparr>hit_text = ''north'',
            hit_metadata = \<lparr>md_file_name = ''a.md'', md_chunk_index = 1, md_headers = [],
                            md_file_path = ''a.md''\<rparr>,
            hit_file_path = ''a.md'', hit_distance = sqrt (2 / 5)\<rparr>],
      library_world\<lparr>replies := []\<rparr>)"
  by (simp add: search_similar_def io_bind_def db_roundtrip_def get_embedding_def
      library_world_def select_nearest_def vector_in_34 joined_def select_row_def
      distance_to_def l2_distance_def power2_eq_square)

theorem search_similar_nearest_witness:
  "search_similar ''hello'' 2 library_world =
     (Inr [\<lparr>hit_text = ''world'',
            hit_metadata = \<lparr>md_file_name = ''c.md'', md_chunk_index = 0, md_headers = [],
                            md_file_path = ''sub/c.md''\<rparr>,
            hit_file_path = ''sub/c.md'', hit_distance = 0\<rparr>,
           \<lparr>hit_text = ''north'',
            hit_metadata = \<lparr>md_file_name = ''a.md'', md_chunk_index = 1, md_headers = [],
                            md_file_path = ''a.md''\<rparr>,
            hit_file_path = ''a.md'', hit_distance = sqrt (2 / 5)\<rparr>],
      library_world\<lparr>replies := []\<rparr>)
   \<and> sorted [0, sqrt (2 / 5)]
   \<and> fst (search_similar ''hello'' 2 fresh_world) = Inr []"
proof -
  note t1 = search_similar_nearest [of "''hello''" 2 library_world]
  note t2 = search_similar_nearest [of "''hello''" 2 fresh_world]
  have a: "sorted [0, sqrt (2 / 5)]"
    using t1 library_search by force
  have nf: "no_faults fresh_world" "replies fresh_world = [\<lambda>_. Embedding [Finite 3, Finite 4]]"
    "chunks fresh_world = []"
    by (simp_all add: fresh_world_def no_faults_def)
  have b: "fst (search_similar ''hello'' 2 fresh_world) = Inr []"
    using t2 nf vector_in_34 by force
  from library_search a b show ?thesis by blast
qed

section \<open>The normalisation\<close>

lemma zero_dot:
  "\<forall>x \<in> set v. x = Finite 0 \<Longrightarrow>
   foldl (\<lambda>s x. f64_add s (f64_mul x x)) (Finite 0) v = Finite 0"
  by (induction v) (simp_all add: f64_round_def)

lemma linalg_norm_zero: "\<forall>x \<in> set v. x = Finite 0 \<Longrightarrow> linalg_norm v = Finite 0"
  by (simp add: linalg_norm_def zero_dot f64_round_def)

lemma normalize_zero:
  assumes "\<forall>x \<in> set v. x = Finite 0"
  shows "normalize v = replicate (length v) NaN"
proof -
  have "map (\<lambda>x. np_divide x (Finite 0)) v = replicate (length v) NaN"
    using assms by (induction v) simp_all
  then show ?thesis
    using assms by (simp add: normalize_def linalg_norm_zero)
qed

lemma vector_in_nan: "vector_in (vec_str (replicate n NaN)) = None"
  by (cases n) (simp_all add: vector_in_def vec_str_def fmt8_def)

lemma embed_and_insert_sends:
  assumes "replies w = r # rs" and "r (pc_text c) = Embedding v"
  shows "sent (snd (embed_and_insert i c w))
           = sent w @ [InsertChunk i (pc_text c) (vec_str (normalize v)) (pc_metadata c)]
         \<and> (\<forall>e. fst (embed_and_insert i c w) \<noteq> Inl (EmbeddingError e))"
  using assms
  by (auto simp: embed_and_insert_def get_embedding_def insert_chunk_def db_send_def
      db_roundtrip_def io_bind_def split: list.splits option.splits)

lemma embed_and_insert_zero:
  assumes "replies w = r # rs" and "r (pc_text c) = Embedding v" and "no_faults w"
    and "\<forall>x \<in> set v. x = Finite 0"
  shows "fst (embed_and_insert i c w) = Inl DataError"
proof -
  have "vector_in (vec_str (normalize v)) = None"
    using assms(4) by (simp add: normalize_zero vector_in_nan)
  then show ?thesis
    using assms(1,2,3)
    by (auto simp: embed_and_insert_def get_embedding_def insert_chunk_def db_send_def
        db_roundtrip_def io_bind_def no_faults_def split: list.splits)
qed

lemma search_similar_no_embedding_error:
  assumes "replies w = r # rs" and "r query = Embedding v"
  shows "fst (search_similar query limit w) \<noteq> Inl (EmbeddingError e)"
  using assms
  by (auto simp: search_similar_def get_embedding_def select_nearest_def db_roundtrip_def
      io_bind_def split: list.splits option.splits if_splits)

lemma search_similar_zero:
  assumes "replies w = r # rs" and "r query = Embedding v" and "no_faults w"
    and "\<forall>x \<in> set v. x = Finite 0"
  shows "fst (search_similar query limit w) = Inl DataError"
proof -
  have "vector_in (vec_str (normalize v)) = None"
    using assms(4) by (simp add: normalize_zero vector_in_nan)
  then show ?thesis
    using assms(1,2,3)
    by (auto simp: search_similar_def get_embedding_def select_nearest_def db_roundtrip_def
        io_bind_def no_faults_def split: list.splits)
qed

text \<open>
  C4, as the code has it. The vector of a successful embedding call is divided
  componentwise by its norm, with no guard on the norm. For an all-zero vector the norm
  is zero and every component of the result is the NaN of a division of zero by zero.
  No embedding error is raised for a vector the service returned: \<^verbatim>\<open>insert_chunks\<close>
  goes on to send the insert with the literal of the divided vector, and
  \<^verbatim>\<open>search_similar\<close> goes on to its query; for an all-zero vector the error that
  comes back, when the database is reached, is the database's.
\<close>

theorem normalize_divides_unguarded:
  "normalize v = map (\<lambda>x. np_divide x (linalg_norm v)) v
   \<and> ((\<forall>x \<in> set v. x = Finite 0) \<longrightarrow>
        linalg_norm v = Finite 0 \<and> normalize v = replicate (length v) NaN)
   \<and> (\<forall>r rs. replies w = r # rs \<and> r (pc_text c) = Embedding v \<longrightarrow>
        sent (snd (embed_and_insert i c w))
          = sent w @ [InsertChunk i (pc_text c) (vec_str (normalize v)) (pc_metadata c)]
        \<and> (\<forall>e. fst (embed_and_insert i c w) \<noteq> Inl (EmbeddingError e))
        \<and> (no_faults w \<and> (\<forall>x \<in> set v. x = Finite 0) \<longrightarrow>
             fst (embed_and_insert i c w) = Inl DataError))
   \<and> (\<forall>r rs. replies w = r # rs \<and> r query = Embedding v \<longrightarrow>
        (\<forall>e. fst (search_similar query limit w) \<noteq> Inl (EmbeddingError e))
        \<and> (no_faults w \<and> (\<forall>x \<in> set v. x = Finite 0) \<longrightarrow>
             fst (search_similar query limit w) = Inl DataError))"
proof (intro conjI allI impI)
  show "normalize v = map (\<lambda>x. np_divide x (linalg_norm v)) v"
    by (simp add: normalize_def)
next
  assume "\<forall>x \<in> set v. x = Finite 0"
  then show "linalg_norm v = Finite 0" "normalize v = replicate (length v) NaN"
    by (simp_all add: linalg_norm_zero normalize_zero)
next
  fix r rs
  assume a: "replies w = r # rs \<and> r (pc_text c) = Embedding v"
  then show "sent (snd (embed_and_insert i c w))
          = sent w @ [InsertChunk i (pc_text c) (vec_str (normalize v)) (pc_metadata c)]"
    using embed_and_insert_sends [of w r rs c v i] by blast
  show "fst (embed_and_insert i c w) \<noteq> Inl (EmbeddingError e)" for e
    using a embed_and_insert_sends [of w r rs c v i] by blast
  show "fst (embed_and_insert i c w) = Inl DataError"
    if "no_faults w \<and> (\<forall>x \<in> set v. x = Finite 0)"
    using a that embed_and_insert_zero [of w r rs c v i] by blast
next
  fix r rs
  assume a: "replies w = r # rs \<and> r query = Embedding v"
  show "fst (search_similar query limit w) \<noteq> Inl (EmbeddingError e)" for e
    using a search_similar_no_embedding_error [of w r rs query v limit e] by blast
  show "fst (search_similar query limit w) = Inl DataError"
    if "no_faults w \<and> (\<forall>x \<in> set v. x = Finite 0)"
    using a that search_similar_zero [of w r rs query v limit] by blast
qed


text \<open>
  The claim as stated fails: the service answers with the zero vector, the division
  by the zero norm is carried out and gives NaN components, the insert and the query
  are sent with them, and the error that comes back is the database's, not an
  embedding error.
\<close>

theorem zero_vector_counterexample:
  "get_embedding ''hello'' zero_reply_world
     = (Inr [Finite 0, Finite 0], fresh_world\<lparr>replies := []\<rparr>)
   \<and> linalg_norm [Finite 0, Finite 0] = Finite 0
   \<and> normalize [Finite 0, Finite 0] = [NaN, NaN]
   \<and> fst (embed_and_insert 1 hello_chunk zero_reply_world) = Inl DataError
   \<and> sent (snd (embed_and_insert 1 hello_chunk zero_reply_world))
       = [InsertChunk 1 ''hello'' [NaN, NaN] (pc_metadata hello_chunk)]
   \<and> fst (search_similar ''hello'' 3 zero_reply_world) = Inl DataError"
proof -
  have n: "linalg_norm [Finite 0, Finite 0] = Finite 0"
    by (simp add: linalg_norm_def f64_round_def)
  have z: "normalize [Finite 0, Finite 0] = [NaN, NaN]"
    by (simp add: normalize_def n)
  have vs: "vec_str [NaN, NaN] = [NaN, NaN]"
    by (simp add: vec_str_def fmt8_def)
  have v: "vector_in [NaN, NaN] = None"
    by (simp add: vector_in_def)
  have a: "get_embedding ''hello'' zero_reply_world
     = (Inr [Finite 0, Finite 0], fresh_world\<lparr>replies := []\<rparr>)"
    by (simp add: get_embedding_def zero_reply_world_def fresh_world_def)
  have b: "fst (embed_and_insert 1 hello_chunk zero_reply_world) = Inl DataError
     \<and> sent (snd (embed_and_insert 1 hello_chunk zero_reply_world))
       = [InsertChunk 1 ''hello'' [NaN, NaN] (pc_metadata hello_chunk)]"
    by (simp add: embed_and_insert_def get_embedding_def zero_reply_world_def fresh_world_def
        hello_chunk_def io_bind_def z vs v insert_chunk_def db_send_def db_roundtrip_def)
  have c: "fst (search_similar ''hello'' 3 zero_reply_world) = Inl DataError"
    by (simp add: search_similar_def get_embedding_def zero_reply_world_def fresh_world_def
        io_bind_def z vs v select_nearest_def db_roundtrip_def)
  from a n z b c show ?thesis by blast
qed

theorem normalize_divides_unguarded_witness:
  "no_faults zero_reply_world
   \<and> linalg_norm [Finite 0, Finite 0] = Finite 0
   \<and> normalize [Finite 0, Finite 0] = [NaN, NaN]
   \<and> sent (snd (embed_and_insert 1 hello_chunk zero_reply_world))
       = [InsertChunk 1 ''hello'' (vec_str (normalize [Finite 0, Finite 0]))
            (pc_metadata hello_chunk)]
   \<and> fst (embed_and_insert 1 hello_chunk zero_reply_world) = Inl DataError
   \<and> fst (search_similar ''hello'' 3 zero_reply_world) = Inl DataError"
proof -
  have nf: "no_faults zero_reply_world"
    by (simp add: no_faults_def zero_reply_world_def fresh_world_def)
  have rp: "replies zero_reply_world = [\<lambda>_. Embedding [Finite 0, Finite 0]]"
    by (simp add: zero_reply_world_def)
  have tx: "pc_text hello_chunk = ''hello''"
    by (simp add: hello_chunk_def)
  have st: "sent zero_reply_world = []"
    by (simp add: zero_reply_world_def fresh_world_def)
  note t = normalize_divides_unguarded
    [of "[Finite 0, Finite 0]" zero_reply_world hello_chunk 1 "''hello''" 3]
  have a: "linalg_norm [Finite 0, Finite 0] = Finite 0
      \<and> normalize [Finite 0, Finite 0] = [NaN, NaN]"
    using t by (simp add: numeral_2_eq_2)
  have b: "sent (snd (embed_and_insert 1 hello_chunk zero_reply_world))
       = [InsertChunk 1 ''hello'' (vec_str (normalize [Finite 0, Finite 0]))
            (pc_metadata hello_chunk)]
      \<and> fst (embed_and_insert 1 hello_chunk zero_reply_world) = Inl DataError"
    using t nf rp tx st by simp
  have c: "fst (search_similar ''hello'' 3 zero_reply_world) = Inl DataError"
    using t nf rp by simp
  from nf a b c show ?thesis by blast
qed

section \<open>The norm of a stored vector\<close>

lemma f64_1e200_eval: "f64_1e200 = Finite (5883593420661338 * 2 ^ 612)"
  unfolding f64_1e200_def
  by (subst f64_round_at [where k = 664]) (simp_all add: pow2_def Let_def round_half_even_def)

lemma f64_mul_1e200: "f64_mul f64_1e200 f64_1e200 = PosInf"
  unfolding f64_1e200_eval f64_mul.simps
  by (subst f64_round_at [where k = 1328]) (simp_all add: pow2_def Let_def round_half_even_def)

lemma linalg_norm_1e200: "linalg_norm [f64_1e200, f64_1e200] = PosInf"
  by (simp add: linalg_norm_def f64_mul_1e200 f64_round_def)

lemma normalize_1e200: "normalize [f64_1e200, f64_1e200] = [Finite 0, Finite 0]"
proof -
  have "np_divide f64_1e200 PosInf = Finite 0"
    by (simp add: f64_1e200_eval)
  then show ?thesis
    by (simp add: normalize_def linalg_norm_1e200)
qed

lemma vector_in_zero: "vector_in (vec_str [Finite 0, Finite 0]) = Some [0, 0]"
  by (simp add: vec_str_def fmt8_def round_half_even_def vector_in_def)

text \<open>
  C7 says that every embedding vector written to the store has Euclidean norm 1 within
  \<^verbatim>\<open>1e-6\<close>, the rounding to eight decimals included. The code does not keep this: when
  the service answers with \<^verbatim>\<open>[1e200, 1e200]\<close> the squares overflow, the norm is the
  infinity, every quotient is zero, the literal \<^verbatim>\<open>[0.00000000,0.00000000]\<close> passes
  the input check of the vector type, and the chunk is stored with an all-zero
  embedding, whose norm is 0.
\<close>

theorem overflow_writes_zero_vector:
  "linalg_norm [f64_1e200, f64_1e200] = PosInf
   \<and> normalize [f64_1e200, f64_1e200] = [Finite 0, Finite 0]
   \<and> fst (index_file demo_libs note_a overflow_reply_world) = Inr ()
   \<and> map dc_embedding (chunks (snd (index_file demo_libs note_a overflow_reply_world)))
       = [[0, 0]]
   \<and> vector_norm [0, 0] = 0
   \<and> 1 / 10 ^ 6 < \<bar>vector_norm [0, 0] - 1\<bar>"
proof -
  have h: "calculate_file_hash demo_libs note_a = Inr ''sha:hello''"
    by (simp add: calculate_file_hash_def demo_libs_def note_a_def)
  have r: "f_rel note_a = ''a.md''"
    by (simp add: note_a_def)
  have st: "map dc_embedding (chunks (snd (index_file demo_libs note_a overflow_reply_world)))
       = [[0, 0]]"
    by (simp add: index_file_eq index_file_body_def process_note_a h io_bind_def io_lift_def
        check_file_needs_update_def select_file_hash_def db_roundtrip_def io_return_def
        overflow_reply_world_def fresh_world_def r
        update_source_document_def select_id_def insert_document_def db_send_def
        io_catch_def embed_and_insert_def get_embedding_def insert_chunk_def
        normalize_1e200 vector_in_zero)
  have n: "vector_norm [0, 0] = 0"
    by (simp add: vector_norm_def)
  have ok: "fst (index_file demo_libs note_a overflow_reply_world) = Inr ()"
    by (simp add: index_file_eq)
  from linalg_norm_1e200 normalize_1e200 ok st n show ?thesis by simp
qed

section \<open>Float64 rounding at the edges\<close>

text \<open>
  The rounding at a decimal that is not a float64, at a subnormal, and past the largest
  float64; the values are those of \<^verbatim>\<open>float("0.1")\<close>, \<^verbatim>\<open>float("1e-320")\<close> and
  \<^verbatim>\<open>float("1.8e308")\<close>.
\<close>

lemma f64_round_tenth: "f64_round (1 / 10) = Finite (3602879701896397 / 2 ^ 55)"
  by (subst f64_round_at [where k = "- 4"]) (simp_all add: pow2_def Let_def round_half_even_def)

lemma f64_round_subnormal: "f64_round (1 / 10 ^ 320) = Finite (253 / 2 ^ 1071)"
  by (subst f64_round_at [where k = "- 1064"])
    (simp_all add: pow2_def Let_def round_half_even_def)

lemma f64_round_overflow: "f64_round (18 * 10 ^ 307) = PosInf"
  by (subst f64_round_at [where k = 1024]) (simp_all add: pow2_def Let_def round_half_even_def)

text \<open>
  The reply \<^verbatim>\<open>[1e-200, 1e-200]\<close>: the squares underflow to zero, the norm is zero, and
  the division gives infinities.
\<close>

lemma f64_1em200_eval: "f64_1em200 = Finite (1723641332219371 / 2 ^ 715)"
  unfolding f64_1em200_def
  by (subst f64_round_at [where k = "- 665"])
    (simp_all add: pow2_def Let_def round_half_even_def)

lemma f64_mul_1em200: "f64_mul f64_1em200 f64_1em200 = Finite 0"
  unfolding f64_1em200_eval f64_mul.simps
  by (subst f64_round_at [where k = "- 1329"])
    (simp_all add: pow2_def Let_def round_half_even_def)

lemma linalg_norm_1em200: "linalg_norm [f64_1em200, f64_1em200] = Finite 0"
  by (simp add: linalg_norm_def f64_mul_1em200 f64_round_def)

lemma normalize_1em200: "normalize [f64_1em200, f64_1em200] = [PosInf, PosInf]"
proof -
  have "np_divide f64_1em200 (Finite 0) = PosInf"
    by (simp add: f64_1em200_eval)
  then show ?thesis
    by (simp add: normalize_def linalg_norm_1em200)
qed

end
